theory Spec2Isabelle
  imports Main "HOL-Library.Word" "HOL-Library.Signed_Division"
begin

unbundle bit_operations_syntax

section \<open>Machine types and byte order\<close>

text \<open>
  The driver \<^verbatim>\<open>ntpd/refclock_javad.c\<close> works on C machine integers. They are
  modelled as words of the width the types have on the platforms ntpd runs on:
  \<^verbatim>\<open>u_char\<close> 8 bits, \<^verbatim>\<open>u_short\<close> 16 bits, \<^verbatim>\<open>u_int\<close> and \<^verbatim>\<open>u_int32\<close> 32 bits,
  \<^verbatim>\<open>int\<close> 32 bits two's complement, \<^verbatim>\<open>time_t\<close> 64 bits.
\<close>

type_synonym u_char = "8 word"
type_synonym u_short = "16 word"
type_synonym u_int = "32 word"
type_synonym time_t = "64 word"

text \<open>
  \<^verbatim>\<open>getshort\<close> and \<^verbatim>\<open>putshort\<close> (lines 47-53). With \<^verbatim>\<open>WORDS_BIGENDIAN\<close> both swap the
  two bytes of a short, otherwise both are the cast to \<^verbatim>\<open>u_short\<close>. The compile-time
  switch is the first argument.
\<close>

definition getshort :: "bool \<Rightarrow> u_short \<Rightarrow> u_short" where
  "getshort bigendian s =
     (if bigendian then push_bit 8 (s AND 0xff) OR (drop_bit 8 s AND 0xff) else s)"

definition putshort :: "bool \<Rightarrow> u_short \<Rightarrow> u_short" where
  "putshort bigendian s =
     (if bigendian then push_bit 8 (s AND 0xff) OR (drop_bit 8 s AND 0xff) else s)"

section \<open>Checksum (\<^verbatim>\<open>javad_cksum\<close>, lines 904-916)\<close>

text \<open>
  \<^verbatim>\<open>while (len-- > 0) { x = *sp++; sum += getshort(x); }\<close> The list is the array
  \<^verbatim>\<open>sp\<close> points to, and \<open>csum\<close> is the accumulator \<^verbatim>\<open>sum\<close>. Reading a short the
  array does not have is outside the model: the result is \<open>None\<close>.
\<close>

fun cksum_loop :: "bool \<Rightarrow> u_short list \<Rightarrow> nat \<Rightarrow> u_short \<Rightarrow> u_short option" where
  "cksum_loop bigendian sp 0 csum = Some csum"
| "cksum_loop bigendian [] (Suc len) csum = None"
| "cksum_loop bigendian (x # sp) (Suc len) csum =
     cksum_loop bigendian sp len (csum + getshort bigendian x)"

text \<open>
  \<^verbatim>\<open>return (~sum + 1);\<close> The complement and the addition are done on \<^verbatim>\<open>int\<close> and
  the result is cut to \<^verbatim>\<open>u_short\<close> by the return type, which is the same as doing
  both on 16 bits.
\<close>

definition javad_cksum :: "bool \<Rightarrow> u_short list \<Rightarrow> nat \<Rightarrow> u_short option" where
  "javad_cksum bigendian sp len =
     (case cksum_loop bigendian sp len 0 of
        None \<Rightarrow> None
      | Some csum \<Rightarrow> Some (NOT csum + 1))"

section \<open>Driver state\<close>

text \<open>
  Modelled from the spec: \<^verbatim>\<open>l_fp\<close> (NTP fixed point), \<^verbatim>\<open>struct timespec\<close>,
  \<^verbatim>\<open>struct tm\<close> and \<^verbatim>\<open>pps_info_t\<close> are declared in headers outside this file. The
  records have the members the driver reads and writes; the sequence numbers are 64 bits
  as in the specification's edge record, and are only compared for equality.
\<close>

record l_fp =
  l_ui :: u_int
  l_uf :: u_int

record timespec =
  tv_sec :: time_t
  tv_nsec :: "64 word"

record tm =
  tm_sec :: int
  tm_min :: int
  tm_hour :: int
  tm_yday :: int
  tm_year :: int

record pps_info_t =
  assert_sequence :: "64 word"
  clear_sequence :: "64 word"
  assert_timestamp :: timespec
  clear_timestamp :: timespec

text \<open>
  The members of \<^verbatim>\<open>instance->peer->procptr\<close> the driver writes: the billboard of the
  last timecode and the last receive timestamp.
\<close>

record refclockproc =
  year :: int
  day :: int
  hour :: int
  minute :: int
  second :: int
  lastrec :: l_fp

text \<open>
  \<^verbatim>\<open>struct instance\<close> (lines 94-118), here \<open>instance_t\<close>, with the members the
  modelled functions use. \<^verbatim>\<open>pps_mode\<close> is \<^verbatim>\<open>pps_params.mode\<close>. \<^verbatim>\<open>sbuf\<close> is the buffer the disabled binary reader
  \<^verbatim>\<open>javad_recv\<close> names; the structure as declared has only \<^verbatim>\<open>ibuf\<close>. Buffers are the
  lists of their bytes.
\<close>

record instance_t =
  procptr :: refclockproc
  pps_mode :: u_int
  pps_info :: pps_info_t
  pps_handle :: int
  ts :: timespec
  gpos_gweek :: u_int
  gpos_sweek :: u_int
  gweek :: u_int
  lastsweek :: u_int
  timecode :: time_t
  ibuf :: "u_char list"
  sbuf :: "u_char list"
  ssize :: int

text \<open>
  What the file takes from its environment: the byte-order switch, the constants of
  the receiver's protocol header and of the PPS API, which are not defined in this file,
  and the library functions \<^verbatim>\<open>gmtime\<close> and the floating-point conversion
  \<^verbatim>\<open>(u_int32)(tv_nsec * FRAC / 1e9)\<close> of \<^verbatim>\<open>javad_pps\<close>.
\<close>

record platform =
  WORDS_BIGENDIAN :: bool
  JAVAD_SYNC :: u_short
  JAVAD_O_PULSE_VALID :: u_short
  JAVAD_O_PULSE_UTC :: u_short
  PPS_CAPTUREASSERT :: u_int
  PPS_CAPTURECLEAR :: u_int
  JAN_1970 :: u_int
  gmtime :: "time_t \<Rightarrow> tm"
  nsec_to_frac :: "64 word \<Rightarrow> u_int"

text \<open>
  What a call hands to the daemon: the messages of \<^verbatim>\<open>javad_debug\<close>, one constructor
  per format string with the values printed, and the events of \<^verbatim>\<open>refclock_report\<close>.
\<close>

datatype cevnt = CEVNT_TIMEOUT | CEVNT_BADTIME

datatype event =
    NewGpsWeek u_int
  | SweekNotIncrementing u_int
  | SweekJumped u_int u_int
  | UtcNone u_int u_int
  | UtcTime tm u_int u_int
  | GpsTime tm u_int u_int
  | Syncing
  | BadHeaderChecksum
  | BadPayloadChecksum
  | RefclockReport cevnt

section \<open>Constants and the double-short macro\<close>

text \<open>
  \<^verbatim>\<open>GPS_EPOCH\<close> and \<^verbatim>\<open>WEEKSECS\<close> are \<^verbatim>\<open>int\<close> constants which C converts to the type of
  the other operand; the definitions are polymorphic for that reason.
\<close>

definition GPS_EPOCH :: "'a::comm_ring_1" where
  "GPS_EPOCH = 315964800"

definition WEEKSECS :: "'a::comm_ring_1" where
  "WEEKSECS = 7 * 24 * 60 * 60"

text \<open>
  \<^verbatim>\<open>#define DS2UI(p) ((getshort((p)[1]) << 16) | getshort((p)[0]))\<close> The operands
  are promoted to \<^verbatim>\<open>int\<close>, so the value is an \<^verbatim>\<open>int\<close>: the 32 bits computed here,
  read as two's complement (the shift into the sign bit taken as the compilers do it).
  The array of two shorts is a pair.
\<close>

definition DS2UI :: "bool \<Rightarrow> u_short \<times> u_short \<Rightarrow> 32 word" where
  "DS2UI bigendian p =
     push_bit 16 (ucast (getshort bigendian (snd p))) OR ucast (getshort bigendian (fst p))"

section \<open>Pulse message (\<^verbatim>\<open>javad_parse_t\<close>, lines 601-721)\<close>

text \<open>
  Modelled from the spec: \<^verbatim>\<open>struct jpulse\<close> and \<^verbatim>\<open>struct jgpos\<close> are not declared in
  this file. The records have the members the parsers read, as shorts; they carry the
  fields of the specification's pulse and position messages: the seconds into the week as
  two shorts, the valid and synced-to-UTC flags as bits of \<^verbatim>\<open>flags\<close>, the validity of
  the solution as \<^verbatim>\<open>navval == 0\<close>, and the week.
\<close>

record jpulse =
  jp_sweek :: "u_short \<times> u_short"
  jp_flags :: u_short

record jgpos =
  jg_navval :: u_short
  jg_gweek :: u_short
  jg_sweek :: "u_short \<times> u_short"

text \<open>
  \<^verbatim>\<open>sweek = DS2UI(jp->sweek) % WEEKSECS;\<close> (line 614). Both operands are \<^verbatim>\<open>int\<close>:
  the remainder is C's, truncating towards zero, and is then converted to
  \<^verbatim>\<open>u_int32\<close>.
\<close>

definition pulse_sweek :: "bool \<Rightarrow> jpulse \<Rightarrow> u_int" where
  "pulse_sweek bigendian jp = word_of_int (sint (DS2UI bigendian (jp_sweek jp)) smod WEEKSECS)"

text \<open>
  Lines 628-653: the week number. \<open>None\<close> is the early return
  \<^verbatim>\<open>"javad_parse_t: Unknown gweek"\<close>.
\<close>

definition week_step :: "instance_t \<Rightarrow> u_int \<Rightarrow> (instance_t \<times> event list) option" where
  "week_step inst sweek =
     (if gweek inst = 0 then
        (if gpos_gweek inst = 0 then None
         else
           let inst1 = inst\<lparr>gweek := gpos_gweek inst\<rparr> in
           if gpos_sweek inst1 \<ge> sweek then
             (if gpos_sweek inst1 - sweek > WEEKSECS div 2
              then Some (inst1\<lparr>gweek := gweek inst1 + 1\<rparr>, [])
              else Some (inst1, []))
           else
             (if sweek - gpos_sweek inst1 > WEEKSECS div 2
              then Some (inst1\<lparr>gweek := gweek inst1 - 1\<rparr>, [])
              else Some (inst1, [])))
      else if sweek = 0 \<and> lastsweek inst = WEEKSECS - 1 then
        Some (inst\<lparr>gweek := gweek inst + 1\<rparr>, [NewGpsWeek (gweek inst + 1)])
      else Some (inst, []))"

text \<open>
  Lines 667-676: the stall and warp messages; \<open>lastsweek0\<close> is \<^verbatim>\<open>instance->lastsweek\<close>
  as the block finds it.
\<close>

definition sweek_check :: "u_int \<Rightarrow> u_int \<Rightarrow> event list" where
  "sweek_check lastsweek0 sweek =
     (if lastsweek0 = sweek then [SweekNotIncrementing sweek]
      else if lastsweek0 \<noteq> 2 * WEEKSECS \<and> lastsweek0 + 1 \<noteq> sweek
              \<and> \<not> (sweek = 0 \<and> lastsweek0 = WEEKSECS - 1)
      then [SweekJumped lastsweek0 sweek]
      else [])"

text \<open>
  Lines 679-704: the new timecode, computed on \<^verbatim>\<open>unsigned int\<close> and stored in a
  \<^verbatim>\<open>time_t\<close>, and the billboard of the previous one.
\<close>

definition set_timecode :: "platform \<Rightarrow> instance_t \<Rightarrow> u_int \<Rightarrow> instance_t \<times> event list" where
  "set_timecode pf inst sweek =
     (let last_timecode = timecode inst;
          inst1 = inst\<lparr>timecode := ucast (GPS_EPOCH + gweek inst * WEEKSECS + sweek :: u_int)\<rparr>
      in if last_timecode = 0 then (inst1, [UtcNone (gweek inst1) sweek])
         else
           let t = gmtime pf last_timecode in
           (inst1\<lparr>procptr := (procptr inst1)\<lparr>year := tm_year t + 1900, day := tm_yday t + 1,
                       hour := tm_hour t, minute := tm_min t, second := tm_sec t\<rparr>\<rparr>,
            [UtcTime t (gweek inst1) sweek]))"

text \<open>
  Lines 706-720: the flags of the message. The result is the message returned
  (\<open>None\<close> for \<^verbatim>\<open>NULL\<close>) and the event reported.
\<close>

definition pulse_flags :: "platform \<Rightarrow> jpulse \<Rightarrow> string option \<times> event list" where
  "pulse_flags pf jp =
     (let flags = getshort (WORDS_BIGENDIAN pf) (jp_flags jp) in
      if flags AND JAVAD_O_PULSE_VALID pf = 0 then
        (Some ''time mark not valid'', [RefclockReport CEVNT_BADTIME])
      else if flags AND JAVAD_O_PULSE_UTC pf = 0 then
        (Some ''time mark not sync'ed to UTC'', [RefclockReport CEVNT_BADTIME])
      else (None, []))"

text \<open>
  The whole function. The result is the returned message, the state afterwards and the
  events of the call in order.
\<close>

definition javad_parse_t :: "platform \<Rightarrow> instance_t \<Rightarrow> jpulse \<Rightarrow> string option \<times> instance_t \<times> event list" where
  "javad_parse_t pf inst jp =
     (let sweek = pulse_sweek (WORDS_BIGENDIAN pf) jp in
      case week_step inst sweek of
        None \<Rightarrow> (Some ''javad_parse_t: Unknown gweek'', inst, [])
      | Some (inst1, ev1) \<Rightarrow>
          let ev2 = sweek_check (lastsweek inst1) sweek;
              inst2 = inst1\<lparr>lastsweek := sweek\<rparr>;
              (inst3, ev3) = set_timecode pf inst2 sweek;
              (r, ev4) = pulse_flags pf jp
          in (r, inst3, ev1 @ ev2 @ ev3 @ ev4))"

section \<open>Position message (\<^verbatim>\<open>javad_parse_gpos\<close>, lines 723-759)\<close>

text \<open>
  \<^verbatim>\<open>while (gpos_sweek >= WEEKSECS) { gpos_sweek -= WEEKSECS; ++gpos_gweek; }\<close> on the
  pair (week, seconds).
\<close>

function gpos_fold :: "u_int \<Rightarrow> u_int \<Rightarrow> u_int \<times> u_int" where
  "gpos_fold gw sw = (if sw \<ge> WEEKSECS then gpos_fold (gw + 1) (sw - WEEKSECS) else (gw, sw))"
  by pat_completeness auto
termination
proof (relation "measure (\<lambda>(gw, sw). unat sw)")
  show "wf (measure (\<lambda>(gw, sw). unat sw))" by simp
next
  fix gw sw :: u_int
  assume "WEEKSECS \<le> sw"
  then have "unat (sw - WEEKSECS) = unat sw - unat (WEEKSECS :: u_int)"
    by (rule unat_sub)
  moreover have "unat (WEEKSECS :: u_int) = 604800" by (simp add: WEEKSECS_def)
  moreover have "unat (WEEKSECS :: u_int) \<le> unat sw"
    using \<open>WEEKSECS \<le> sw\<close> by (simp add: word_le_nat_alt)
  ultimately show "((gw + 1, sw - WEEKSECS), (gw, sw)) \<in> measure (\<lambda>(gw, sw). unat sw)"
    by simp
qed

definition javad_parse_gpos :: "platform \<Rightarrow> instance_t \<Rightarrow> jgpos \<Rightarrow> string option \<times> instance_t \<times> event list" where
  "javad_parse_gpos pf inst jg =
     (if jg_navval jg \<noteq> 0 then
        (Some ''Navigation solution not valid'', inst\<lparr>gpos_gweek := 0, gpos_sweek := 0\<rparr>, [])
      else
        let (gw, sw) = gpos_fold (ucast (jg_gweek jg)) (DS2UI (WORDS_BIGENDIAN pf) (jg_sweek jg));
            inst1 = inst\<lparr>gpos_gweek := gw, gpos_sweek := sw, gweek := 0\<rparr>;
            t = ucast (GPS_EPOCH + gpos_gweek inst1 * WEEKSECS + gpos_sweek inst1 :: u_int)
        in (None, inst1, [GpsTime (gmtime pf t) (gpos_gweek inst1) (gpos_sweek inst1)]))"

section \<open>Successive pulse messages\<close>

text \<open>
  The driver handles one pulse message per call; a sequence of messages is a sequence of
  calls, each on the state the previous one left. The result lists the events of each
  call.
\<close>

fun parse_t_run :: "platform \<Rightarrow> instance_t \<Rightarrow> jpulse list \<Rightarrow> event list list" where
  "parse_t_run pf inst [] = []"
| "parse_t_run pf inst (jp # jps) =
     (case javad_parse_t pf inst jp of (r, inst', ev) \<Rightarrow> ev # parse_t_run pf inst' jps)"

text \<open>The warp message is \<^verbatim>\<open>"gps sweek jumped (was %d, now %d)"\<close>.\<close>

fun is_warp :: "event \<Rightarrow> bool" where
  "is_warp (SweekJumped was now) = True"
| "is_warp e = False"

text \<open>Each value of the list is the one before it plus one.\<close>

fun steps_by_one :: "u_int list \<Rightarrow> bool" where
  "steps_by_one (x # y # ys) = (y = x + 1 \<and> steps_by_one (y # ys))"
| "steps_by_one xs = True"

section \<open>Initial state\<close>

text \<open>
  \<^verbatim>\<open>javad_start\<close> allocates the structure with \<^verbatim>\<open>emalloc_zero\<close>; \<^verbatim>\<open>javad_config\<close>
  (lines 282-290) then sets the unit variables. Members the model does not have
  (\<^verbatim>\<open>pollcnt\<close>, \<^verbatim>\<open>polled\<close>, \<^verbatim>\<open>stime\<close>) are left out. \<^verbatim>\<open>sbuf\<close>, which the structure
  does not declare, is given 1024 bytes here.
\<close>

definition zero_instance :: instance_t where
  "zero_instance =
     \<lparr>procptr = \<lparr>year = 0, day = 0, hour = 0, minute = 0, second = 0,
                  lastrec = \<lparr>l_ui = 0, l_uf = 0\<rparr>\<rparr>,
      pps_mode = 0,
      pps_info = \<lparr>assert_sequence = 0, clear_sequence = 0,
                   assert_timestamp = \<lparr>tv_sec = 0, tv_nsec = 0\<rparr>,
                   clear_timestamp = \<lparr>tv_sec = 0, tv_nsec = 0\<rparr>\<rparr>,
      pps_handle = 0,
      ts = \<lparr>tv_sec = 0, tv_nsec = 0\<rparr>,
      gpos_gweek = 0, gpos_sweek = 0, gweek = 0, lastsweek = 0, timecode = 0,
      ibuf = replicate 512 0, sbuf = replicate 1024 0, ssize = 0\<rparr>"

definition javad_config_vars :: "instance_t \<Rightarrow> instance_t" where
  "javad_config_vars inst =
     inst\<lparr>gpos_gweek := 0, gpos_sweek := 0, gweek := 0, lastsweek := 2 * WEEKSECS,
          timecode := 0, ssize := 0\<rparr>"

text \<open>
  A platform for evaluating the functions on examples: little-endian, example values
  for the sync short and the two pulse flags, the capture bits 1 and 2, the NTP era offset
  for \<^verbatim>\<open>JAN_1970\<close>, a \<^verbatim>\<open>gmtime\<close> that splits the time of day only, and the
  fraction \<open>nsec * 2 ^ 32 div 10 ^ 9\<close>.
\<close>

definition test_platform :: platform where
  "test_platform =
     \<lparr>WORDS_BIGENDIAN = False, JAVAD_SYNC = 0x81ff,
      JAVAD_O_PULSE_VALID = 1, JAVAD_O_PULSE_UTC = 2,
      PPS_CAPTUREASSERT = 1, PPS_CAPTURECLEAR = 2, JAN_1970 = 2208988800,
      gmtime = (\<lambda>t. \<lparr>tm_sec = uint t mod 60, tm_min = uint t div 60 mod 60,
                       tm_hour = uint t div 3600 mod 24, tm_yday = 0, tm_year = 70\<rparr>),
      nsec_to_frac = (\<lambda>n. word_of_int (uint n * 4294967296 div 1000000000))\<rparr>"

text \<open>
  The states in which the next pulse message, with seconds \<open>s\<close>, cannot log a warp:
  no value stored yet, or the stored value is \<open>s - 1\<close>, or the week is unknown with no
  anchor (the message is then dropped before the check).
\<close>

definition no_warp_next :: "instance_t \<Rightarrow> u_int \<Rightarrow> bool" where
  "no_warp_next inst s \<longleftrightarrow>
     lastsweek inst = 2 * WEEKSECS \<or> lastsweek inst + 1 = s
       \<or> (gweek inst = 0 \<and> gpos_gweek inst = 0)"

section \<open>PPS timestamps (\<^verbatim>\<open>javad_pps\<close>, lines 382-428)\<close>

text \<open>
  Lines 419-427: a timestamp equal in both members to the last one used is dropped
  (result 1); a different one is stored in \<^verbatim>\<open>instance->ts\<close> and written, converted to
  \<^verbatim>\<open>l_fp\<close>, to \<^verbatim>\<open>lastrec\<close> (result 0). The fraction is computed in floating point and
  is the platform's \<open>nsec_to_frac\<close>.
\<close>

definition pps_emit :: "platform \<Rightarrow> instance_t \<Rightarrow> timespec \<Rightarrow> int \<times> instance_t" where
  "pps_emit pf inst t =
     (if tv_sec (ts inst) = tv_sec t \<and> tv_nsec (ts inst) = tv_nsec t then (1, inst)
      else
        (0, inst\<lparr>ts := t,
                 procptr := (procptr inst)\<lparr>lastrec :=
                   \<lparr>l_ui = ucast (tv_sec t) + JAN_1970 pf,
                    l_uf = nsec_to_frac pf (tv_nsec t)\<rparr>\<rparr>\<rparr>))"

text \<open>
  The whole function. \<open>fetched\<close> is what \<^verbatim>\<open>time_pps_fetch\<close> delivers with the zero
  timeout: \<open>None\<close> when it returns a negative value (\<^verbatim>\<open>instance->pps_info\<close> is then
  taken as untouched), otherwise the new \<^verbatim>\<open>pps_info_t\<close> it stores in the structure.
  \<open>old\<close> is the local copy made before the fetch.
\<close>

definition javad_pps :: "platform \<Rightarrow> instance_t \<Rightarrow> pps_info_t option \<Rightarrow> int \<times> instance_t" where
  "javad_pps pf inst fetched =
     (if pps_handle inst = 0 then (1, inst)
      else
        let old = pps_info inst in
        case fetched of
          None \<Rightarrow> (1, inst)
        | Some info \<Rightarrow>
            let inst1 = inst\<lparr>pps_info := info\<rparr> in
            if pps_mode inst1 AND PPS_CAPTUREASSERT pf \<noteq> 0 then
              (if assert_sequence old = assert_sequence (pps_info inst1) then (1, inst1)
               else pps_emit pf inst1 (assert_timestamp (pps_info inst1)))
            else if pps_mode inst1 AND PPS_CAPTURECLEAR pf \<noteq> 0 then
              (if clear_sequence old = clear_sequence (pps_info inst1) then (1, inst1)
               else pps_emit pf inst1 (clear_timestamp (pps_info inst1)))
            else (1, inst1))"

text \<open>
  The edge the capture mode selects from a \<^verbatim>\<open>pps_info_t\<close>, as its sequence number and
  timestamp: the assert edge if the mode has \<^verbatim>\<open>PPS_CAPTUREASSERT\<close>, else the clear edge if
  it has \<^verbatim>\<open>PPS_CAPTURECLEAR\<close>, else none. Used to state properties of \<open>javad_pps\<close>.
\<close>

definition selected_edge :: "platform \<Rightarrow> u_int \<Rightarrow> pps_info_t \<Rightarrow> (64 word \<times> timespec) option" where
  "selected_edge pf mode info =
     (if mode AND PPS_CAPTUREASSERT pf \<noteq> 0
        then Some (assert_sequence info, assert_timestamp info)
      else if mode AND PPS_CAPTURECLEAR pf \<noteq> 0
        then Some (clear_sequence info, clear_timestamp info)
      else None)"

section \<open>Line input (\<^verbatim>\<open>javad_receive\<close>, lines 511-597)\<close>

text \<open>
  \<^verbatim>\<open>instance->ibuf\<close> is an array of 512 bytes. The function can address bytes outside the
  array; what such an access reads or overwrites is not determined by this file, so the
  model ends the call with a fault there. The third fault is the call of \<^verbatim>\<open>abort()\<close>.
\<close>

datatype fault = WriteOverrun | ReadOverrun | Abort

text \<open>
  Lines 542-544. \<^verbatim>\<open>sizeof(instance->ibuf) - (instance->ssize - 1)\<close> and the comparison
  with \<^verbatim>\<open>len\<close> are computed on \<^verbatim>\<open>size_t\<close>, 64 bits without sign; the limit is
  converted back to \<^verbatim>\<open>int\<close> by the assignment.
\<close>

definition size_t_of :: "int \<Rightarrow> int" where
  "size_t_of x = x mod 2 ^ 64"

definition int_of_size_t :: "int \<Rightarrow> int" where
  "int_of_size_t x = (x + 2 ^ 31) mod 2 ^ 32 - 2 ^ 31"

definition clamp_len :: "int \<Rightarrow> int \<Rightarrow> int" where
  "clamp_len ssize0 len =
     (let limit = size_t_of (512 - size_t_of (ssize0 - 1)) in
      if size_t_of len > limit then int_of_size_t limit else len)"

text \<open>
  Line 547, \<^verbatim>\<open>strlcpy(instance->ibuf + instance->ssize, cp, len + 1)\<close>: the bytes of the
  source before its first NUL, at most \<^verbatim>\<open>len\<close> of them, are copied to the buffer from
  offset \<^verbatim>\<open>ssize\<close> on, and a NUL is written after them. \<open>n\<close> is \<^verbatim>\<open>len\<close>.
\<close>

definition strlcpy_ibuf :: "u_char list \<Rightarrow> int \<Rightarrow> u_char list \<Rightarrow> nat \<Rightarrow> fault + u_char list" where
  "strlcpy_ibuf buf off src n =
     (let k = length (takeWhile (\<lambda>c. c \<noteq> 0) (take n src)) in
      if off < 0 \<or> nat off + k \<ge> 512 then Inl WriteOverrun
      else Inr (take (nat off) buf @ take k src @ [0] @ drop (nat off + k + 1) buf))"

text \<open>
  Lines 551-560, the search for CR LF: \<open>i\<close> is the offset of \<^verbatim>\<open>cp\<close> in the buffer, the
  third argument is \<^verbatim>\<open>len\<close>. The result is the offset of \<^verbatim>\<open>eol\<close>, one past the LF, or
  \<open>None\<close> for \<^verbatim>\<open>NULL\<close>.
\<close>

fun scan_eol :: "u_char list \<Rightarrow> nat \<Rightarrow> nat \<Rightarrow> fault + nat option" where
  "scan_eol buf i (Suc (Suc n)) =
     (if i \<ge> 512 then Inl ReadOverrun
      else if buf ! i = 13 then
        (if i + 1 \<ge> 512 then Inl ReadOverrun
         else if buf ! (i + 1) = 10 then Inr (Some (i + 2))
         else scan_eol buf (i + 1) (Suc n))
      else scan_eol buf (i + 1) (Suc n))"
| "scan_eol buf i n = Inr None"

text \<open>
  The whole function, for a receive buffer holding \<open>data\<close> (\<^verbatim>\<open>recv_length\<close> is its
  length). The result is the state afterwards and the line printed to \<^verbatim>\<open>stderr\<close>, CR LF
  included, if one was complete. In the housekeeping (lines 583-596) the copy of
  \<^verbatim>\<open>ssize + 1\<close> bytes from offset \<^verbatim>\<open>len\<close> to the front is taken front to back.
\<close>

definition javad_receive :: "instance_t \<Rightarrow> u_char list \<Rightarrow> fault + (instance_t \<times> u_char list option)" where
  "javad_receive inst data =
     (let len = clamp_len (ssize inst) (int (length data)) in
      case strlcpy_ibuf (ibuf inst) (ssize inst) data (nat len) of
        Inl f \<Rightarrow> Inl f
      | Inr buf1 \<Rightarrow>
          let ssize1 = ssize inst + len in
          case scan_eol buf1 0 (nat ssize1) of
            Inl f \<Rightarrow> Inl f
          | Inr None \<Rightarrow> Inr (inst\<lparr>ibuf := buf1, ssize := ssize1\<rparr>, None)
          | Inr (Some eol) \<Rightarrow>
              let len2 = int eol; line = take eol buf1 in
              if ssize1 = len2 then
                Inr (inst\<lparr>ibuf := buf1[0 := 0], ssize := 0\<rparr>, Some line)
              else if ssize1 > len2 then
                (if eol + nat ssize1 \<ge> 512 then Inl ReadOverrun
                 else
                   Inr (inst\<lparr>ibuf := take (nat ssize1 + 1) (drop eol buf1)
                                        @ drop (nat ssize1 + 1) buf1,
                             ssize := ssize1 - len2\<rparr>,
                        Some line))
              else Inl Abort)"

text \<open>
  Successive deliveries: each call works on the state the previous one left; the result
  lists the lines printed, in order. A fault ends the run.
\<close>

fun receive_run :: "instance_t \<Rightarrow> u_char list list \<Rightarrow> fault + (instance_t \<times> u_char list list)" where
  "receive_run inst [] = Inr (inst, [])"
| "receive_run inst (d # ds) =
     (case javad_receive inst d of
        Inl f \<Rightarrow> Inl f
      | Inr (inst', out) \<Rightarrow>
          (case receive_run inst' ds of
             Inl f \<Rightarrow> Inl f
           | Inr (inst'', fs) \<Rightarrow> Inr (inst'', (case out of None \<Rightarrow> [] | Some l \<Rightarrow> [l]) @ fs)))"



section \<open>Binary input (\<^verbatim>\<open>javad_recv\<close>, lines 918-1002)\<close>

text \<open>
  The function is compiled out (\<^verbatim>\<open>notdef\<close>). It reads \<^verbatim>\<open>instance->sbuf\<close>, an array of
  shorts, here the list of its bytes; \<^verbatim>\<open>ssize\<close> counts the bytes in use.
\<close>

text \<open>
  Modelled from the spec: \<^verbatim>\<open>struct jheader\<close> is not declared in this file. The
  specification gives the header as six 16-bit fields, in the order sync, message id,
  payload length, sequence/flags, flags, header checksum. The definitions are the size of
  the structure in bytes and the indices of the shorts \<^verbatim>\<open>hp->sync\<close>, \<^verbatim>\<open>hp->len\<close> and
  \<^verbatim>\<open>hp->hsum\<close>.
\<close>

definition sizeof_jheader :: int where
  "sizeof_jheader = 12"

definition jh_sync :: nat where
  "jh_sync = 0"

definition jh_len :: nat where
  "jh_len = 2"

definition jh_hsum :: nat where
  "jh_hsum = 5"

text \<open>The short with index \<open>k\<close> of the buffer, as the host reads it from the two bytes.\<close>

definition short_at :: "bool \<Rightarrow> u_char list \<Rightarrow> nat \<Rightarrow> u_short" where
  "short_at bigendian buf k =
     (if bigendian then push_bit 8 (ucast (buf ! (2 * k))) OR ucast (buf ! (2 * k + 1))
      else push_bit 8 (ucast (buf ! (2 * k + 1))) OR ucast (buf ! (2 * k)))"

text \<open>The \<open>cnt\<close> shorts from index \<open>k\<close> on: the array a pointer to short \<open>k\<close> addresses.\<close>

definition shorts_from :: "bool \<Rightarrow> u_char list \<Rightarrow> nat \<Rightarrow> nat \<Rightarrow> u_short list" where
  "shorts_from bigendian buf k cnt = map (\<lambda>j. short_at bigendian buf (k + j)) [0..<cnt]"

text \<open>
  Lines 942-960, the search for the two sync bytes: \<open>off\<close> is the offset of \<^verbatim>\<open>bp\<close>,
  \<open>n\<close> the bytes left. The result is the pair of both when the loop ends.
\<close>

function sync_scan :: "u_short \<Rightarrow> u_char list \<Rightarrow> nat \<Rightarrow> nat \<Rightarrow> nat \<times> nat" where
  "sync_scan sync buf off n =
     (if n \<ge> 2 then
        (if buf ! off \<noteq> ucast (sync AND 0xff) then sync_scan sync buf (off + 1) (n - 1)
         else if buf ! (off + 1) = ucast (drop_bit 8 sync AND 0xff) then (off, n)
         else sync_scan sync buf (off + 2) (n - 2))
      else (off, n))"
  by pat_completeness auto
termination
  by (relation "measure (\<lambda>(sync, buf, off, n). n)") auto

text \<open>
  Lines 973-1000, from the header checksum on; \<open>size\<close> is the local of that name and
  \<open>ev\<close> the messages logged so far.
\<close>

definition recv_check :: "platform \<Rightarrow> instance_t \<Rightarrow> int \<Rightarrow> event list \<Rightarrow> int \<times> instance_t \<times> event list" where
  "recv_check pf inst size0 ev =
     (let be = WORDS_BIGENDIAN pf; cc = sizeof_jheader; hwords = nat (cc div 2) in
      if javad_cksum be (shorts_from be (sbuf inst) 0 (hwords - 1)) (hwords - 1)
           \<noteq> Some (getshort be (short_at be (sbuf inst) jh_hsum))
      then (0, inst\<lparr>ssize := 0\<rparr>, ev @ [BadHeaderChecksum])
      else
        let len = uint (getshort be (short_at be (sbuf inst) jh_len)) in
        if len > 0 then
          let n = (len + 1) * 2 in
          if size0 < cc + n then (0, inst, ev)
          else if javad_cksum be (shorts_from be (sbuf inst) hwords (nat len)) (nat len)
                    \<noteq> Some (getshort be (short_at be (sbuf inst) (hwords + nat len)))
          then (0, inst\<lparr>ssize := 0\<rparr>, ev @ [BadPayloadChecksum])
          else (cc + n, inst, ev)
        else (cc, inst, ev))"

text \<open>
  The whole function: the size of the next message, or 0. The copy of the \<open>n\<close> bytes
  found to the front of the buffer is taken front to back.
\<close>

definition javad_recv :: "platform \<Rightarrow> instance_t \<Rightarrow> int \<times> instance_t \<times> event list" where
  "javad_recv pf inst =
     (let be = WORDS_BIGENDIAN pf; cc = sizeof_jheader; size0 = ssize inst in
      if size0 < cc then (0, inst, [])
      else if getshort be (short_at be (sbuf inst) jh_sync) \<noteq> JAVAD_SYNC pf then
        let (off, n) = sync_scan (JAVAD_SYNC pf) (sbuf inst) 0 (nat size0);
            buf1 = (if n > 0 then take n (drop off (sbuf inst)) @ drop n (sbuf inst)
                    else sbuf inst);
            inst1 = inst\<lparr>sbuf := buf1, ssize := int n\<rparr>
        in if int n < cc \<or> short_at be buf1 jh_sync \<noteq> JAVAD_SYNC pf then (0, inst1, [Syncing])
           else recv_check pf inst1 (int n) [Syncing]
      else recv_check pf inst size0 [])"

text \<open>
  The payload check as the specification words it, for comparison with the code: a
  header that declares payload length \<open>L\<close> is followed by \<open>L + 1\<close> payload words and
  then the checksum word, and the checksum is computed over the \<open>L + 1\<close> words.
\<close>

definition spec_payload_check :: "bool \<Rightarrow> u_char list \<Rightarrow> nat \<Rightarrow> bool" where
  "spec_payload_check bigendian buf L =
     (javad_cksum bigendian (shorts_from bigendian buf (nat (sizeof_jheader div 2)) (L + 1)) (L + 1)
        = Some (getshort bigendian
                  (short_at bigendian buf (nat (sizeof_jheader div 2) + (L + 1)))))"

text \<open>
  An example buffer, bytes as on the wire: a header with sync \<open>0x81ff\<close>, payload length 1
  and header checksum \<open>0x7e00\<close>, the payload short 1, the short \<open>0xffff\<close> (the checksum
  of the one payload short), and the short 5.
\<close>

definition example_frame :: "u_char list" where
  "example_frame = [0xff, 0x81, 0, 0, 1, 0, 0, 0, 0, 0, 0, 0x7e, 1, 0, 0xff, 0xff, 5, 0]"

section \<open>The line input as a queue of bytes\<close>

text \<open>
  What the line input does, stated on the bytes alone, for comparison with the code. The
  offset one past the first CR LF of a byte sequence:
\<close>

fun find_crlf :: "u_char list \<Rightarrow> nat option" where
  "find_crlf (a # b # xs) =
     (if a = 13 \<and> b = 10 then Some 2 else map_option Suc (find_crlf (b # xs)))"
| "find_crlf xs = None"

text \<open>The sequence has no CR LF after its first one.\<close>

definition crlf_at_most_once :: "u_char list \<Rightarrow> bool" where
  "crlf_at_most_once bs =
     (case find_crlf bs of None \<Rightarrow> True | Some e \<Rightarrow> find_crlf (drop e bs) = None)"

text \<open>
  One delivery to a queue of pending bytes: the delivery is appended and, if the queue
  then holds a CR LF, the bytes up to and including the first one are taken off and
  emitted. A run of deliveries lists the lines emitted.
\<close>

definition queue_step :: "u_char list \<Rightarrow> u_char list \<Rightarrow> u_char list \<times> u_char list option" where
  "queue_step pend data =
     (case find_crlf (pend @ data) of
        None \<Rightarrow> (pend @ data, None)
      | Some e \<Rightarrow> (drop e (pend @ data), Some (take e (pend @ data))))"

fun queue_run :: "u_char list \<Rightarrow> u_char list list \<Rightarrow> u_char list list" where
  "queue_run pend [] = []"
| "queue_run pend (d # ds) =
     (case snd (queue_step pend d) of None \<Rightarrow> [] | Some l \<Rightarrow> [l])
       @ queue_run (fst (queue_step pend d)) ds"

text \<open>
  The state holds the pending bytes \<open>pend\<close>: they are the first \<^verbatim>\<open>ssize\<close> bytes of the
  512-byte buffer.
\<close>

definition buffered :: "instance_t \<Rightarrow> u_char list \<Rightarrow> bool" where
  "buffered inst pend \<longleftrightarrow>
     length (ibuf inst) = 512 \<and> ssize inst = int (length pend)
       \<and> take (length pend) (ibuf inst) = pend"

section \<open>Properties of the checksum\<close>

lemma byte_mask: "(0xff :: u_short) = mask 8"
  by (simp add: mask_eq_exp_minus_1)

lemma swap_swap:
  "push_bit 8 ((push_bit 8 (s AND 0xff) OR (drop_bit 8 s AND 0xff)) AND 0xff)
     OR (drop_bit 8 (push_bit 8 (s AND 0xff) OR (drop_bit 8 s AND 0xff)) AND 0xff) = (s::u_short)"
  unfolding byte_mask
  apply (rule bit_word_eqI)
  apply (auto simp: bit_simps)
  done

lemma getshort_putshort: "getshort b (putshort b s) = s"
  using swap_swap [of s] by (simp add: getshort_def putshort_def)

lemma cksum_loop_sum:
  "cksum_loop b ws (length ws) acc = Some (acc + sum_list (map (getshort b) ws))"
  by (induction ws arbitrary: acc) (simp_all add: add.assoc)

lemma javad_cksum_neg:
  "javad_cksum b ws (length ws) = Some (- sum_list (map (getshort b) ws))"
  by (simp add: javad_cksum_def cksum_loop_sum minus_eq_not_plus_1)

lemma unat_sum_list:
  "unat (sum_list (map f ws) :: u_short) = sum_list (map (\<lambda>w. unat (f w)) ws) mod 2 ^ 16"
proof (induction ws)
  case Nil
  show ?case by simp
next
  case (Cons w ws)
  have "unat (f w + sum_list (map f ws)) = (unat (f w) + unat (sum_list (map f ws))) mod 2 ^ 16"
    by (simp add: unat_word_ariths)
  also have "\<dots> = (unat (f w) + sum_list (map (\<lambda>w. unat (f w)) ws) mod 2 ^ 16) mod 2 ^ 16"
    by (simp only: Cons.IH)
  also have "\<dots> = (unat (f w) + sum_list (map (\<lambda>w. unat (f w)) ws)) mod 2 ^ 16"
    by (rule mod_add_right_eq)
  finally show ?case by simp
qed

lemma unat_neg16: "unat (- x :: u_short) = (2 ^ 16 - unat x) mod 2 ^ 16"
proof -
  have "unat (0 - x) = (if unat x \<le> unat (0::u_short) then unat (0::u_short) - unat x
                         else unat (0::u_short) + 2 ^ size (0::u_short) - unat x)"
    by (rule unat_sub_if_size)
  moreover have "unat x < 2 ^ 16" using unsigned_less [of x] by simp
  ultimately show ?thesis by (auto simp: word_size)
qed

text \<open>
  Claim C2. For every sequence \<open>ws\<close> of 16-bit words, on either byte order,
  \<^verbatim>\<open>javad_cksum\<close> over the whole sequence returns the two's-complement negation, modulo
  \<open>2 ^ 16\<close>, of the arithmetic sum of the words after \<^verbatim>\<open>getshort\<close>; and the checksum of
  the sequence followed by its own checksum word (stored with \<^verbatim>\<open>putshort\<close>, as on
  the wire) is 0.
\<close>

theorem javad_cksum_negated_sum:
  "\<exists>c. javad_cksum b ws (length ws) = Some c
      \<and> c = - sum_list (map (getshort b) ws)
      \<and> unat c = (2 ^ 16 - sum_list (map (\<lambda>w. unat (getshort b w)) ws) mod 2 ^ 16) mod 2 ^ 16
      \<and> javad_cksum b (ws @ [putshort b c]) (Suc (length ws)) = Some 0"
proof -
  let ?c = "- sum_list (map (getshort b) ws)"
  have 1: "javad_cksum b ws (length ws) = Some ?c" by (rule javad_cksum_neg)
  have 2: "unat ?c = (2 ^ 16 - sum_list (map (\<lambda>w. unat (getshort b w)) ws) mod 2 ^ 16) mod 2 ^ 16"
    by (simp only: unat_neg16 unat_sum_list)
  have "javad_cksum b (ws @ [putshort b ?c]) (length (ws @ [putshort b ?c])) = Some 0"
    by (simp only: javad_cksum_neg) (simp add: getshort_putshort)
  then have 3: "javad_cksum b (ws @ [putshort b ?c]) (Suc (length ws)) = Some 0" by simp
  from 1 2 3 show ?thesis by blast
qed

section \<open>Properties of the pulse and position parsers\<close>

lemma sint_nonneg_uint:
  fixes w :: "32 word"
  assumes "w < 2 ^ 31"
  shows "sint w = uint w"
proof -
  have "uint w < 2 ^ 31" using assms by (simp add: word_less_def)
  moreover have "- (2 ^ 31) \<le> uint w" by (rule order_trans [of _ 0]) simp_all
  ultimately have "signed_take_bit 31 (uint w) = uint w"
    by (rule signed_take_bit_int_eq_self [rotated])
  then show ?thesis by (simp add: sint_uint)
qed

lemma smod_nonneg:
  fixes k :: int
  assumes "0 \<le> k"
  shows "k smod 604800 = k mod 604800"
proof (cases "k = 0")
  case True
  then show ?thesis by simp
next
  case False
  with assms have "0 < k" by simp
  then show ?thesis by (simp add: signed_modulo_int_def)
qed

lemma unat_word_of_int_small:
  fixes k :: int
  assumes "0 \<le> k" "k < 604800"
  shows "unat (word_of_int k :: u_int) = nat k"
proof -
  have "k < 2 ^ 32" using assms(2) by simp
  with assms(1) have "take_bit 32 k = k" by (simp add: take_bit_int_eq_self)
  then have "uint (word_of_int k :: u_int) = k" by (simp add: uint_word_of_int_eq)
  then show ?thesis by (simp only: unat_eq_nat_uint)
qed

lemma pulse_sweek_mod:
  assumes "DS2UI b (jp_sweek jp) < 2 ^ 31"
  shows "unat (pulse_sweek b jp) = unat (DS2UI b (jp_sweek jp)) mod 604800"
proof -
  let ?w = "DS2UI b (jp_sweek jp)"
  have s: "sint ?w = uint ?w" using assms by (rule sint_nonneg_uint)
  have nn: "0 \<le> uint ?w" by simp
  have "uint ?w smod 604800 = uint ?w mod 604800"
    using nn by (rule smod_nonneg)
  then have "sint ?w smod 604800 = uint ?w mod 604800" using s by simp
  moreover have "0 \<le> uint ?w mod 604800" "uint ?w mod 604800 < 604800" by simp_all
  ultimately have "unat (word_of_int (sint ?w smod 604800) :: u_int) = nat (uint ?w mod 604800)"
    by (simp only: unat_word_of_int_small)
  also have "\<dots> = unat ?w mod 604800"
    by (simp add: nat_mod_distrib)
  finally show ?thesis by (simp add: pulse_sweek_def WEEKSECS_def)
qed

lemma WEEKSECS_u: "(WEEKSECS :: u_int) = 604800" by (simp add: WEEKSECS_def)
lemma WEEKSECS_i: "(WEEKSECS :: int) = 604800" by (simp add: WEEKSECS_def)

lemma week_step_None: "week_step inst s = None \<longleftrightarrow> gweek inst = 0 \<and> gpos_gweek inst = 0"
  by (simp add: week_step_def Let_def)

lemma week_step_Some:
  assumes "week_step inst s = Some (inst1, ev1)"
  shows "inst1 = inst\<lparr>gweek := gweek inst1\<rparr>" and "filter is_warp ev1 = []"
  using assms by (auto simp: week_step_def Let_def split: if_splits)

lemma week_step_keeps:
  assumes "week_step inst s = Some (inst1, ev1)"
  shows "lastsweek inst1 = lastsweek inst" "gpos_gweek inst1 = gpos_gweek inst"
    "gpos_sweek inst1 = gpos_sweek inst" "timecode inst1 = timecode inst"
  using assms by (auto simp: week_step_def Let_def split: if_splits)

lemma set_timecode_fields:
  "gweek (fst (set_timecode pf inst s)) = gweek inst"
  "lastsweek (fst (set_timecode pf inst s)) = lastsweek inst"
  "gpos_gweek (fst (set_timecode pf inst s)) = gpos_gweek inst"
  "timecode (fst (set_timecode pf inst s)) = ucast (GPS_EPOCH + gweek inst * WEEKSECS + s :: u_int)"
  "filter is_warp (snd (set_timecode pf inst s)) = []"
  by (simp_all add: set_timecode_def Let_def)

lemma javad_parse_t_Some:
  assumes "week_step inst (pulse_sweek (WORDS_BIGENDIAN pf) jp) = Some (inst1, ev1)"
  shows "javad_parse_t pf inst jp =
     (fst (pulse_flags pf jp),
      fst (set_timecode pf (inst1\<lparr>lastsweek := pulse_sweek (WORDS_BIGENDIAN pf) jp\<rparr>) (pulse_sweek (WORDS_BIGENDIAN pf) jp)),
      ev1 @ sweek_check (lastsweek inst1) (pulse_sweek (WORDS_BIGENDIAN pf) jp)
        @ snd (set_timecode pf (inst1\<lparr>lastsweek := pulse_sweek (WORDS_BIGENDIAN pf) jp\<rparr>) (pulse_sweek (WORDS_BIGENDIAN pf) jp))
        @ snd (pulse_flags pf jp))"
  using assms by (simp add: javad_parse_t_def Let_def split: prod.splits)

lemma javad_parse_t_None:
  assumes "week_step inst (pulse_sweek (WORDS_BIGENDIAN pf) jp) = None"
  shows "javad_parse_t pf inst jp = (Some ''javad_parse_t: Unknown gweek'', inst, [])"
  using assms by (simp add: javad_parse_t_def Let_def)

lemma pulse_flags_no_warp: "filter is_warp (snd (pulse_flags pf jp)) = []"
  by (simp add: pulse_flags_def Let_def)

lemma sweek_check_no_warp:
  "l = 2 * WEEKSECS \<or> l + 1 = s \<Longrightarrow> filter is_warp (sweek_check l s) = []"
  by (auto simp: sweek_check_def)

lemma parse_t_step_no_warp:
  assumes P: "no_warp_next inst (pulse_sweek (WORDS_BIGENDIAN pf) jp)"
    and R: "javad_parse_t pf inst jp = (r, inst', ev)"
  shows "filter is_warp ev = [] \<and> no_warp_next inst' (pulse_sweek (WORDS_BIGENDIAN pf) jp + 1)"
proof (cases "week_step inst (pulse_sweek (WORDS_BIGENDIAN pf) jp)")
  case None
  with R have "inst' = inst" "ev = []" by (simp_all add: javad_parse_t_None)
  moreover from None have "gweek inst = 0 \<and> gpos_gweek inst = 0" by (simp add: week_step_None)
  ultimately show ?thesis by (simp add: no_warp_next_def)
next
  case (Some a)
  obtain inst1 ev1 where a: "a = (inst1, ev1)" by (cases a)
  let ?s = "pulse_sweek (WORDS_BIGENDIAN pf) jp"
  have ws: "week_step inst ?s = Some (inst1, ev1)" using Some a by simp
  have known: "\<not> (gweek inst = 0 \<and> gpos_gweek inst = 0)"
    using ws week_step_None [of inst ?s] by simp
  have l1: "lastsweek inst1 = lastsweek inst" using ws by (rule week_step_keeps)
  from P known have "lastsweek inst1 = 2 * WEEKSECS \<or> lastsweek inst1 + 1 = ?s"
    by (simp add: no_warp_next_def l1)
  then have c: "filter is_warp (sweek_check (lastsweek inst1) ?s) = []"
    by (rule sweek_check_no_warp)
  have e1: "filter is_warp ev1 = []" using ws by (rule week_step_Some)
  from R have ev: "ev = ev1 @ sweek_check (lastsweek inst1) ?s
        @ snd (set_timecode pf (inst1\<lparr>lastsweek := ?s\<rparr>) ?s) @ snd (pulse_flags pf jp)"
    and i': "inst' = fst (set_timecode pf (inst1\<lparr>lastsweek := ?s\<rparr>) ?s)"
    by (simp_all add: javad_parse_t_Some [OF ws])
  have "filter is_warp ev = []"
    by (simp add: ev e1 c set_timecode_fields pulse_flags_no_warp)
  moreover have "lastsweek inst' = ?s" by (simp add: i' set_timecode_fields)
  ultimately show ?thesis by (simp add: no_warp_next_def)
qed

lemma steps_by_one_Cons:
  assumes "steps_by_one (x # y # ys)"
  shows "y = x + 1" and "steps_by_one (y # ys)"
  using assms by auto

lemma parse_t_run_no_warp:
  "no_warp_next inst (pulse_sweek (WORDS_BIGENDIAN pf) jp) \<Longrightarrow>
   steps_by_one (map (pulse_sweek (WORDS_BIGENDIAN pf)) (jp # jps)) \<Longrightarrow>
   concat (map (filter is_warp) (parse_t_run pf inst (jp # jps))) = []"
proof (induction jps arbitrary: inst jp)
  case Nil
  obtain r inst' ev where R: "javad_parse_t pf inst jp = (r, inst', ev)" by (cases "javad_parse_t pf inst jp")
  with parse_t_step_no_warp [OF Nil(1) R] show ?case by simp
next
  case (Cons jq jps)
  obtain r inst' ev where R: "javad_parse_t pf inst jp = (r, inst', ev)" by (cases "javad_parse_t pf inst jp")
  note st = parse_t_step_no_warp [OF Cons.prems(1) R]
  from Cons.prems(2) have all: "steps_by_one (pulse_sweek (WORDS_BIGENDIAN pf) jp
      # pulse_sweek (WORDS_BIGENDIAN pf) jq # map (pulse_sweek (WORDS_BIGENDIAN pf)) jps)"
    by (simp only: list.map)
  note nx = steps_by_one_Cons(1) [OF all]
  have rest: "steps_by_one (map (pulse_sweek (WORDS_BIGENDIAN pf)) (jq # jps))"
    using steps_by_one_Cons(2) [OF all] by (simp only: list.map)
  from st nx have "no_warp_next inst' (pulse_sweek (WORDS_BIGENDIAN pf) jq)" by simp
  from Cons.IH [OF this rest] have "concat (map (filter is_warp) (parse_t_run pf inst' (jq # jps))) = []" .
  with st R show ?case by simp
qed

lemmas eval_defs = javad_parse_t_def week_step_def set_timecode_def pulse_flags_def sweek_check_def
     pulse_sweek_def DS2UI_def getshort_def test_platform_def zero_instance_def Let_def
     WEEKSECS_def GPS_EPOCH_def signed_modulo_int_def javad_config_vars_def javad_parse_gpos_def

lemma DS2UI_add:
  "DS2UI b p = push_bit 16 (ucast (getshort b (snd p))) + ucast (getshort b (fst p))"
proof -
  have "push_bit 16 (ucast (getshort b (snd p)) :: 32 word) + ucast (getshort b (fst p))
      = push_bit 16 (ucast (getshort b (snd p))) OR ucast (getshort b (fst p))"
    by (rule disjunctive_add) (auto simp: bit_simps dest: bit_imp_le_length)
  then show ?thesis by (simp add: DS2UI_def)
qed

lemma unat_short_less: "unat (x :: u_short) < 65536"
proof -
  have "unat x < 2 ^ 16" using unsigned_less [of x] by simp
  then show ?thesis by simp
qed

lemma unat_ucast_short: "unat (ucast (x :: u_short) :: 32 word) = unat x"
proof -
  have "unat x < 2 ^ LENGTH(32)" using unat_short_less [of x] by simp
  then have "take_bit LENGTH(32) (unat x) = unat x" by (rule take_bit_nat_eq_self)
  then show ?thesis by (simp only: unsigned_ucast_eq)
qed

lemma unat_push_short: "unat (push_bit 16 (ucast (x :: u_short) :: 32 word)) = 65536 * unat x"
proof -
  have "65536 * unat x < 2 ^ LENGTH(32)" using unat_short_less [of x] by simp
  then have t: "take_bit LENGTH(32) (65536 * unat x) = 65536 * unat x"
    by (rule take_bit_nat_eq_self)
  have "unat (push_bit 16 (ucast x :: 32 word)) = take_bit LENGTH(32) (push_bit 16 (unat (ucast x :: 32 word)))"
    by (rule unsigned_push_bit_eq)
  also have "\<dots> = take_bit LENGTH(32) (65536 * unat x)"
    by (simp only: unat_ucast_short push_bit_eq_mult) (simp add: mult.commute)
  finally show ?thesis by (simp only: t)
qed

lemma DS2UI_unat:
  "unat (DS2UI b p) = unat (getshort b (fst p)) + 65536 * unat (getshort b (snd p))"
proof -
  let ?lo = "getshort b (fst p)" and ?hi = "getshort b (snd p)"
  have "unat (push_bit 16 (ucast ?hi :: 32 word)) + unat (ucast ?lo :: 32 word) < 2 ^ LENGTH(32)"
    using unat_short_less [of ?lo] unat_short_less [of ?hi]
    by (simp add: unat_push_short unat_ucast_short)
  then have "unat (push_bit 16 (ucast ?hi :: 32 word) + ucast ?lo)
      = unat (push_bit 16 (ucast ?hi :: 32 word)) + unat (ucast ?lo :: 32 word)"
    by (rule unat_add_lem [THEN iffD1])
  then show ?thesis by (simp add: DS2UI_add unat_push_short unat_ucast_short)
qed

lemma pulse_sweek_shorts:
  assumes "getshort b (snd (jp_sweek jp)) < 0x8000"
  shows "unat (pulse_sweek b jp) =
           (unat (getshort b (fst (jp_sweek jp))) + 65536 * unat (getshort b (snd (jp_sweek jp))))
             mod 604800"
proof -
  have hi: "unat (getshort b (snd (jp_sweek jp))) < 32768"
    using assms by (simp add: word_less_nat_alt)
  have lo: "unat (getshort b (fst (jp_sweek jp))) < 65536" by (rule unat_short_less)
  have "unat (DS2UI b (jp_sweek jp)) < 2147483648"
    using hi lo by (simp add: DS2UI_unat)
  then have "DS2UI b (jp_sweek jp) < 2 ^ 31" by (simp add: word_less_nat_alt)
  then have "unat (pulse_sweek b jp) = unat (DS2UI b (jp_sweek jp)) mod 604800"
    by (rule pulse_sweek_mod)
  then show ?thesis by (simp only: DS2UI_unat)
qed

text \<open>
  The week taken from the anchor (lines 628-648). A pulse message handled while the week
  is unknown (\<^verbatim>\<open>gweek == 0\<close>) and an anchor is set (\<^verbatim>\<open>gpos_gweek != 0\<close>): with \<open>s\<close> the
  seconds into the week the handler computes (line 614), the week becomes the anchor's
  week plus one if the anchor's seconds are at least \<open>s\<close> and exceed it by more than half a
  week, the anchor's week minus one if \<open>s\<close> exceeds the anchor's seconds by more than half
  a week, and the anchor's week otherwise. An anchor at \<open>WEEKSECS - 10\<close> with \<open>s = 5\<close>
  gives the anchor's week plus one. When the high short of the message's seconds is below
  \<open>0x8000\<close>, \<open>s\<close> is the unsigned 32-bit value of the two shorts modulo \<open>WEEKSECS\<close>.
\<close>

lemma javad_parse_t_anchor_rule:
  assumes "gweek inst = 0" and "gpos_gweek inst \<noteq> 0"
  shows "(let s = pulse_sweek (WORDS_BIGENDIAN pf) jp;
              inst' = fst (snd (javad_parse_t pf inst jp)) in
            gweek inst' =
              (if gpos_sweek inst \<ge> s \<and> gpos_sweek inst - s > WEEKSECS div 2
                 then gpos_gweek inst + 1
               else if s > gpos_sweek inst \<and> s - gpos_sweek inst > WEEKSECS div 2
                 then gpos_gweek inst - 1
               else gpos_gweek inst)
            \<and> (gpos_sweek inst = WEEKSECS - 10 \<and> s = 5 \<longrightarrow> gweek inst' = gpos_gweek inst + 1)
            \<and> (getshort (WORDS_BIGENDIAN pf) (snd (jp_sweek jp)) < 0x8000 \<longrightarrow>
                 unat s = (unat (getshort (WORDS_BIGENDIAN pf) (fst (jp_sweek jp)))
                           + 65536 * unat (getshort (WORDS_BIGENDIAN pf) (snd (jp_sweek jp))))
                          mod 604800))"
proof -
  let ?s = "pulse_sweek (WORDS_BIGENDIAN pf) jp"
  let ?g = "if gpos_sweek inst \<ge> ?s \<and> gpos_sweek inst - ?s > WEEKSECS div 2
                 then gpos_gweek inst + 1
               else if ?s > gpos_sweek inst \<and> ?s - gpos_sweek inst > WEEKSECS div 2
                 then gpos_gweek inst - 1
               else gpos_gweek inst"
  have ws: "week_step inst ?s = Some (inst\<lparr>gweek := ?g\<rparr>, [])"
    using assms by (auto simp: week_step_def Let_def)
  have g: "gweek (fst (snd (javad_parse_t pf inst jp))) = ?g"
    by (simp add: javad_parse_t_Some [OF ws] set_timecode_fields)
  have ex: "gpos_sweek inst = WEEKSECS - 10 \<and> ?s = 5 \<longrightarrow> ?g = gpos_gweek inst + 1"
    by (simp add: WEEKSECS_u)
  have m: "getshort (WORDS_BIGENDIAN pf) (snd (jp_sweek jp)) < 0x8000 \<longrightarrow>
      unat ?s = (unat (getshort (WORDS_BIGENDIAN pf) (fst (jp_sweek jp)))
                 + 65536 * unat (getshort (WORDS_BIGENDIAN pf) (snd (jp_sweek jp)))) mod 604800"
    by (rule impI) (rule pulse_sweek_shorts)
  from g ex m show ?thesis by (simp only: Let_def)
qed

lemma javad_parse_t_anchor_rule_example:
  "gweek (fst (snd (javad_parse_t test_platform
      (zero_instance\<lparr>gpos_gweek := 2190, gpos_sweek := WEEKSECS - 10, lastsweek := 2 * WEEKSECS\<rparr>)
      \<lparr>jp_sweek = (5, 0), jp_flags = 3\<rparr>))) = 2191
   \<and> pulse_sweek (WORDS_BIGENDIAN test_platform) \<lparr>jp_sweek = (5, 0), jp_flags = 3\<rparr> = 5"
proof -
  let ?i = "zero_instance\<lparr>gpos_gweek := 2190, gpos_sweek := WEEKSECS - 10, lastsweek := 2 * WEEKSECS\<rparr>"
  let ?j = "\<lparr>jp_sweek = (5, 0), jp_flags = 3\<rparr>"
  have h1: "gweek ?i = 0" by (simp add: zero_instance_def)
  have h2: "gpos_gweek ?i \<noteq> 0" by simp
  have s: "pulse_sweek (WORDS_BIGENDIAN test_platform) ?j = 5"
    by (simp add: eval_defs)
  have gs: "gpos_sweek ?i = WEEKSECS - 10" by simp
  from javad_parse_t_anchor_rule [OF h1 h2, of test_platform ?j] s gs
  show ?thesis by (simp add: Let_def WEEKSECS_u)
qed

text \<open>
  Claim C1. For every pulse message handled while the week is unknown and an anchor is
  set, the week is resolved by the three-way rule with \<open>s\<close> the message's unsigned 32-bit
  seconds modulo \<open>WEEKSECS\<close>. The handler departs from this when the seconds are
  \<open>2 ^ 31\<close> or more. \<^verbatim>\<open>DS2UI\<close>, commented as "Double short to unsigned int", yields an
  \<^verbatim>\<open>int\<close>, so the \<^verbatim>\<open>%\<close> of line 614 is a signed remainder. For the shorts
  \<open>(0, 0x8000)\<close> the unsigned seconds are 2147483648, which is 443648 modulo
  \<open>WEEKSECS\<close>; with the anchor at week 2190 and 443648 seconds the rule of the claim keeps
  week 2190. The handler computes \<open>-2147483648 % WEEKSECS = -443648\<close>, stores it as
  4294523648 and resolves week 2189.
\<close>

theorem javad_parse_t_signed_sweek:
  "(let inst = (javad_config_vars zero_instance)\<lparr>gpos_gweek := 2190, gpos_sweek := 443648\<rparr>;
        jp = \<lparr>jp_sweek = (0, 0x8000), jp_flags = 3\<rparr>;
        inst' = fst (snd (javad_parse_t test_platform inst jp)) in
      gweek inst = 0 \<and> gpos_gweek inst = 2190 \<and> gpos_sweek inst = 443648
      \<and> unat (getshort False (fst (jp_sweek jp))) + 65536 * unat (getshort False (snd (jp_sweek jp)))
            = 2147483648
      \<and> (2147483648 :: nat) mod unat (WEEKSECS :: u_int) = 443648
      \<and> sint (DS2UI False (jp_sweek jp)) = - 2147483648
      \<and> pulse_sweek False jp = 4294523648
      \<and> gweek inst' = 2189
      \<and> lastsweek inst' = 4294523648)"
  by (simp add: eval_defs)

text \<open>
  Claim C4 (as amended). A position message whose solution is not valid
  (\<^verbatim>\<open>navval != 0\<close>) sets the anchor's week and seconds to 0, returns the message
  "Navigation solution not valid" and changes nothing else: the week \<^verbatim>\<open>gweek\<close> keeps its
  value and nothing is logged.
\<close>

theorem javad_parse_gpos_invalid:
  assumes "jg_navval jg \<noteq> 0"
  shows "javad_parse_gpos pf inst jg =
           (Some ''Navigation solution not valid'', inst\<lparr>gpos_gweek := 0, gpos_sweek := 0\<rparr>, [])
         \<and> gweek (fst (snd (javad_parse_gpos pf inst jg))) = gweek inst"
  using assms by (simp add: javad_parse_gpos_def)

theorem javad_parse_gpos_invalid_witness:
  "javad_parse_gpos test_platform (zero_instance\<lparr>gpos_gweek := 2190, gpos_sweek := 30, gweek := 2190\<rparr>)
       \<lparr>jg_navval = 1, jg_gweek = 2191, jg_sweek = (40, 0)\<rparr>
     = (Some ''Navigation solution not valid'',
        zero_instance\<lparr>gpos_gweek := 0, gpos_sweek := 0, gweek := 2190\<rparr>, [])"
proof -
  have h: "jg_navval \<lparr>jg_navval = 1, jg_gweek = 2191, jg_sweek = (40, 0)\<rparr> \<noteq> 0" by simp
  from javad_parse_gpos_invalid [OF h, of test_platform
      "zero_instance\<lparr>gpos_gweek := 2190, gpos_sweek := 30, gweek := 2190\<rparr>"]
  show ?thesis by (simp add: zero_instance_def)
qed

text \<open>
  The claim as stated fails: with the week known as 2190, a position message with an
  invalid solution leaves the week at 2190, not at 0 ("unknown").
\<close>

theorem javad_parse_gpos_invalid_keeps_gweek:
  "jg_navval \<lparr>jg_navval = 1, jg_gweek = 2191, jg_sweek = (40, 0)\<rparr> \<noteq> 0
   \<and> gweek (fst (snd (javad_parse_gpos test_platform (zero_instance\<lparr>gweek := 2190\<rparr>)
         \<lparr>jg_navval = 1, jg_gweek = 2191, jg_sweek = (40, 0)\<rparr>))) = 2190
   \<and> gweek (fst (snd (javad_parse_gpos test_platform (zero_instance\<lparr>gweek := 2190\<rparr>)
         \<lparr>jg_navval = 1, jg_gweek = 2191, jg_sweek = (40, 0)\<rparr>))) \<noteq> 0"
  by (simp add: javad_parse_gpos_def)

lemma pulse_flags_bad:
  assumes "getshort (WORDS_BIGENDIAN pf) (jp_flags jp) AND JAVAD_O_PULSE_VALID pf = 0
           \<or> getshort (WORDS_BIGENDIAN pf) (jp_flags jp) AND JAVAD_O_PULSE_UTC pf = 0"
  shows "\<exists>msg. pulse_flags pf jp = (Some msg, [RefclockReport CEVNT_BADTIME])"
  using assms by (auto simp: pulse_flags_def Let_def)

lemma week_step_no_report:
  assumes "week_step inst s = Some (inst1, ev1)"
  shows "RefclockReport CEVNT_BADTIME \<notin> set ev1"
  using assms by (auto simp: week_step_def Let_def split: if_splits)

lemma sweek_check_no_report: "RefclockReport CEVNT_BADTIME \<notin> set (sweek_check l s)"
  by (simp add: sweek_check_def)

lemma set_timecode_no_report: "RefclockReport CEVNT_BADTIME \<notin> set (snd (set_timecode pf inst s))"
  by (simp add: set_timecode_def Let_def)

text \<open>
  Claim C3 (as amended). A pulse message whose valid flag or whose synced-to-UTC flag is
  clear, handled with the week known or an anchor set: the handler reports one bad-time
  event, as the last event of the call, and returns an error message; the stored
  timecode has by then been set to \<open>GPS_EPOCH + gweek * WEEKSECS + s\<close> for the week and
  seconds of this message.
\<close>

theorem javad_parse_t_bad_flags:
  assumes "getshort (WORDS_BIGENDIAN pf) (jp_flags jp) AND JAVAD_O_PULSE_VALID pf = 0
           \<or> getshort (WORDS_BIGENDIAN pf) (jp_flags jp) AND JAVAD_O_PULSE_UTC pf = 0"
    and "gweek inst \<noteq> 0 \<or> gpos_gweek inst \<noteq> 0"
  shows "\<exists>msg inst' ev.
           javad_parse_t pf inst jp = (Some msg, inst', ev @ [RefclockReport CEVNT_BADTIME])
           \<and> RefclockReport CEVNT_BADTIME \<notin> set ev
           \<and> timecode inst' =
               ucast (GPS_EPOCH + gweek inst' * WEEKSECS + pulse_sweek (WORDS_BIGENDIAN pf) jp :: u_int)"
proof -
  let ?s = "pulse_sweek (WORDS_BIGENDIAN pf) jp"
  from assms(2) have "week_step inst ?s \<noteq> None" by (simp add: week_step_None)
  then obtain inst1 ev1 where ws: "week_step inst ?s = Some (inst1, ev1)" by auto
  obtain msg where pf: "pulse_flags pf jp = (Some msg, [RefclockReport CEVNT_BADTIME])"
    using pulse_flags_bad [OF assms(1)] by blast
  let ?st = "set_timecode pf (inst1\<lparr>lastsweek := ?s\<rparr>) ?s"
  let ?ev = "ev1 @ sweek_check (lastsweek inst1) ?s @ snd ?st"
  have "javad_parse_t pf inst jp = (Some msg, fst ?st, ?ev @ [RefclockReport CEVNT_BADTIME])"
    by (simp add: javad_parse_t_Some [OF ws] pf)
  moreover have "RefclockReport CEVNT_BADTIME \<notin> set ?ev"
    using week_step_no_report [OF ws] by (simp add: sweek_check_no_report set_timecode_no_report)
  moreover have "timecode (fst ?st) = ucast (GPS_EPOCH + gweek (fst ?st) * WEEKSECS + ?s :: u_int)"
    by (simp add: set_timecode_fields)
  ultimately show ?thesis by blast
qed

theorem javad_parse_t_bad_flags_witness:
  "javad_parse_t test_platform (zero_instance\<lparr>gweek := 2190, lastsweek := 9, timecode := 1640476809\<rparr>)
       \<lparr>jp_sweek = (10, 0), jp_flags = 2\<rparr>
     = (Some ''time mark not valid'',
        zero_instance\<lparr>gweek := 2190, lastsweek := 10, timecode := 1640476810,
          procptr := \<lparr>year = 1970, day = 1, hour = 0, minute = 0, second = 9,
                      lastrec = \<lparr>l_ui = 0, l_uf = 0\<rparr>\<rparr>\<rparr>,
        [UtcTime \<lparr>tm_sec = 9, tm_min = 0, tm_hour = 0, tm_yday = 0, tm_year = 70\<rparr> 2190 10,
         RefclockReport CEVNT_BADTIME])"
proof -
  let ?i = "zero_instance\<lparr>gweek := 2190, lastsweek := 9, timecode := 1640476809\<rparr>"
  let ?j = "\<lparr>jp_sweek = (10, 0), jp_flags = 2\<rparr>"
  have h1: "getshort (WORDS_BIGENDIAN test_platform) (jp_flags ?j) AND JAVAD_O_PULSE_VALID test_platform = 0
           \<or> getshort (WORDS_BIGENDIAN test_platform) (jp_flags ?j) AND JAVAD_O_PULSE_UTC test_platform = 0"
    by (simp add: test_platform_def getshort_def)
  have h2: "gweek ?i \<noteq> 0 \<or> gpos_gweek ?i \<noteq> 0" by simp
  from javad_parse_t_bad_flags [OF h1 h2]
  show ?thesis by (simp add: eval_defs)
qed

text \<open>
  The claim as stated fails. With the week known as 2190 and the timecode
  1640476809 stored, a pulse message with both flags clear and 10 seconds into the week
  is rejected with a bad-time event, and the stored timecode is 1640476810 afterwards.
  With the week unknown and no anchor, as \<^verbatim>\<open>javad_config\<close> leaves the state, the same
  message is dropped with no event at all.
\<close>

theorem javad_parse_t_bad_flags_updates_timecode:
  "getshort (WORDS_BIGENDIAN test_platform) (jp_flags \<lparr>jp_sweek = (10, 0), jp_flags = 0\<rparr>)
       AND JAVAD_O_PULSE_VALID test_platform = 0
   \<and> timecode (zero_instance\<lparr>gweek := 2190, lastsweek := 9, timecode := 1640476809\<rparr>) = 1640476809
   \<and> timecode (fst (snd (javad_parse_t test_platform
         (zero_instance\<lparr>gweek := 2190, lastsweek := 9, timecode := 1640476809\<rparr>)
         \<lparr>jp_sweek = (10, 0), jp_flags = 0\<rparr>))) = 1640476810
   \<and> snd (snd (javad_parse_t test_platform
         (zero_instance\<lparr>gweek := 2190, lastsweek := 9, timecode := 1640476809\<rparr>)
         \<lparr>jp_sweek = (10, 0), jp_flags = 0\<rparr>))
       = [UtcTime \<lparr>tm_sec = 9, tm_min = 0, tm_hour = 0, tm_yday = 0, tm_year = 70\<rparr> 2190 10,
          RefclockReport CEVNT_BADTIME]
   \<and> javad_parse_t test_platform (javad_config_vars zero_instance) \<lparr>jp_sweek = (10, 0), jp_flags = 0\<rparr>
       = (Some ''javad_parse_t: Unknown gweek'', javad_config_vars zero_instance, [])"
  by (simp add: eval_defs)

lemma week_step_known:
  assumes "gweek inst \<noteq> 0 \<or> gpos_gweek inst \<noteq> 0" and "s \<noteq> 0"
  shows "\<exists>inst1 ev1. week_step inst s = Some (inst1, ev1) \<and> ev1 = []
           \<and> lastsweek inst1 = lastsweek inst
           \<and> (gweek inst1 \<noteq> 0 \<or> gpos_gweek inst1 \<noteq> 0)"
  using assms by (auto simp: week_step_def Let_def)

lemma parse_t_step_known:
  assumes K: "gweek inst \<noteq> 0 \<or> gpos_gweek inst \<noteq> 0"
    and S: "pulse_sweek (WORDS_BIGENDIAN pf) jp = s" "s \<noteq> 0"
    and R: "javad_parse_t pf inst jp = (r, inst', ev)"
  shows "filter is_warp ev = filter is_warp (sweek_check (lastsweek inst) s)
         \<and> lastsweek inst' = s \<and> (gweek inst' \<noteq> 0 \<or> gpos_gweek inst' \<noteq> 0)"
proof -
  obtain inst1 where ws: "week_step inst s = Some (inst1, [])"
    and l: "lastsweek inst1 = lastsweek inst"
    and k: "gweek inst1 \<noteq> 0 \<or> gpos_gweek inst1 \<noteq> 0"
    using week_step_known [OF K S(2)] by blast
  from ws S(1) have ws': "week_step inst (pulse_sweek (WORDS_BIGENDIAN pf) jp) = Some (inst1, [])"
    by simp
  from R have ev: "ev = sweek_check (lastsweek inst1) s
        @ snd (set_timecode pf (inst1\<lparr>lastsweek := s\<rparr>) s) @ snd (pulse_flags pf jp)"
    and i': "inst' = fst (set_timecode pf (inst1\<lparr>lastsweek := s\<rparr>) s)"
    by (simp_all add: javad_parse_t_Some [OF ws'] S(1))
  have "filter is_warp ev = filter is_warp (sweek_check (lastsweek inst) s)"
    by (simp add: ev l set_timecode_fields pulse_flags_no_warp)
  moreover have "lastsweek inst' = s" by (simp add: i' set_timecode_fields)
  moreover have "gweek inst' \<noteq> 0 \<or> gpos_gweek inst' \<noteq> 0"
    using k by (simp add: i' set_timecode_fields)
  ultimately show ?thesis by simp
qed

lemma parse_t_run_10_11_50:
  assumes F: "lastsweek inst = 2 * WEEKSECS"
    and K: "gweek inst \<noteq> 0 \<or> gpos_gweek inst \<noteq> 0"
    and S: "pulse_sweek (WORDS_BIGENDIAN pf) j1 = 10" "pulse_sweek (WORDS_BIGENDIAN pf) j2 = 11"
           "pulse_sweek (WORDS_BIGENDIAN pf) j3 = 50"
  shows "map (filter is_warp) (parse_t_run pf inst [j1, j2, j3]) = [[], [], [SweekJumped 11 50]]"
proof -
  obtain r1 i1 e1 where R1: "javad_parse_t pf inst j1 = (r1, i1, e1)" by (cases "javad_parse_t pf inst j1")
  obtain r2 i2 e2 where R2: "javad_parse_t pf i1 j2 = (r2, i2, e2)" by (cases "javad_parse_t pf i1 j2")
  obtain r3 i3 e3 where R3: "javad_parse_t pf i2 j3 = (r3, i3, e3)" by (cases "javad_parse_t pf i2 j3")
  note s1 = parse_t_step_known [OF K S(1) _ R1]
  have a1: "filter is_warp e1 = []" and l1: "lastsweek i1 = 10"
    and k1: "gweek i1 \<noteq> 0 \<or> gpos_gweek i1 \<noteq> 0"
    using s1 by (simp_all add: F sweek_check_def WEEKSECS_u)
  note s2 = parse_t_step_known [OF k1 S(2) _ R2]
  have a2: "filter is_warp e2 = []" and l2: "lastsweek i2 = 11"
    and k2: "gweek i2 \<noteq> 0 \<or> gpos_gweek i2 \<noteq> 0"
    using s2 by (simp_all add: l1 sweek_check_def WEEKSECS_u)
  note s3 = parse_t_step_known [OF k2 S(3) _ R3]
  have a3: "filter is_warp e3 = [SweekJumped 11 50]"
    using s3 by (simp add: l2 sweek_check_def WEEKSECS_u)
  show ?thesis by (simp add: R1 R2 R3 a1 a2 a3)
qed

lemma parse_t_week_time:
  "(gweek (fst (snd (javad_parse_t pf inst jp))), timecode (fst (snd (javad_parse_t pf inst jp))))
     = (case week_step inst (pulse_sweek (WORDS_BIGENDIAN pf) jp) of
          None \<Rightarrow> (gweek inst, timecode inst)
        | Some (inst1, ev1) \<Rightarrow>
            (gweek inst1,
             ucast (GPS_EPOCH + gweek inst1 * WEEKSECS + pulse_sweek (WORDS_BIGENDIAN pf) jp :: u_int)))"
proof (cases "week_step inst (pulse_sweek (WORDS_BIGENDIAN pf) jp)")
  case None
  then show ?thesis by (simp add: javad_parse_t_None)
next
  case (Some a)
  obtain inst1 ev1 where a: "a = (inst1, ev1)" by (cases a)
  with Some have ws: "week_step inst (pulse_sweek (WORDS_BIGENDIAN pf) jp) = Some (inst1, ev1)" by simp
  show ?thesis by (simp add: javad_parse_t_Some [OF ws] ws set_timecode_fields)
qed

text \<open>
  Claim C9 (as amended). Starting with no seconds value stored (\<^verbatim>\<open>lastsweek\<close> at its
  initial \<open>2 * WEEKSECS\<close>), a sequence of pulse messages whose seconds each increase by
  exactly 1 logs no warp. The sequence 10, 11, 50, handled with the week known or an
  anchor set, logs exactly one warp, at the step to 50. The stall and warp check only
  logs: the week and the timecode after a call are those of the week rule and of
  \<open>GPS_EPOCH + gweek * WEEKSECS + s\<close>, whatever the check found.
\<close>

theorem javad_parse_t_warp_log:
  "(lastsweek inst = 2 * WEEKSECS
      \<and> steps_by_one (map (pulse_sweek (WORDS_BIGENDIAN pf)) jps)
     \<longrightarrow> concat (map (filter is_warp) (parse_t_run pf inst jps)) = [])
   \<and> (lastsweek inst = 2 * WEEKSECS \<and> (gweek inst \<noteq> 0 \<or> gpos_gweek inst \<noteq> 0)
        \<and> map (pulse_sweek (WORDS_BIGENDIAN pf)) [j1, j2, j3] = [10, 11, 50]
     \<longrightarrow> map (filter is_warp) (parse_t_run pf inst [j1, j2, j3]) = [[], [], [SweekJumped 11 50]])
   \<and> (gweek (fst (snd (javad_parse_t pf inst jp))), timecode (fst (snd (javad_parse_t pf inst jp))))
       = (case week_step inst (pulse_sweek (WORDS_BIGENDIAN pf) jp) of
            None \<Rightarrow> (gweek inst, timecode inst)
          | Some (inst1, ev1) \<Rightarrow>
              (gweek inst1,
               ucast (GPS_EPOCH + gweek inst1 * WEEKSECS + pulse_sweek (WORDS_BIGENDIAN pf) jp :: u_int)))"
proof (intro conjI impI)
  assume A: "lastsweek inst = 2 * WEEKSECS \<and> steps_by_one (map (pulse_sweek (WORDS_BIGENDIAN pf)) jps)"
  show "concat (map (filter is_warp) (parse_t_run pf inst jps)) = []"
  proof (cases jps)
    case Nil
    then show ?thesis by simp
  next
    case (Cons j js)
    from A have "no_warp_next inst (pulse_sweek (WORDS_BIGENDIAN pf) j)"
      by (simp add: no_warp_next_def)
    moreover from A Cons have "steps_by_one (map (pulse_sweek (WORDS_BIGENDIAN pf)) (j # js))"
      by simp
    ultimately show ?thesis unfolding Cons by (rule parse_t_run_no_warp)
  qed
next
  assume B: "lastsweek inst = 2 * WEEKSECS \<and> (gweek inst \<noteq> 0 \<or> gpos_gweek inst \<noteq> 0)
        \<and> map (pulse_sweek (WORDS_BIGENDIAN pf)) [j1, j2, j3] = [10, 11, 50]"
  then have "lastsweek inst = 2 * WEEKSECS" "gweek inst \<noteq> 0 \<or> gpos_gweek inst \<noteq> 0"
    "pulse_sweek (WORDS_BIGENDIAN pf) j1 = 10" "pulse_sweek (WORDS_BIGENDIAN pf) j2 = 11"
    "pulse_sweek (WORDS_BIGENDIAN pf) j3 = 50" by simp_all
  then show "map (filter is_warp) (parse_t_run pf inst [j1, j2, j3]) = [[], [], [SweekJumped 11 50]]"
    by (rule parse_t_run_10_11_50)
next
  show "(gweek (fst (snd (javad_parse_t pf inst jp))), timecode (fst (snd (javad_parse_t pf inst jp))))
       = (case week_step inst (pulse_sweek (WORDS_BIGENDIAN pf) jp) of
            None \<Rightarrow> (gweek inst, timecode inst)
          | Some (inst1, ev1) \<Rightarrow>
              (gweek inst1,
               ucast (GPS_EPOCH + gweek inst1 * WEEKSECS + pulse_sweek (WORDS_BIGENDIAN pf) jp :: u_int)))"
    by (rule parse_t_week_time)
qed

lemma pulse_sweek_small:
  "pulse_sweek False \<lparr>jp_sweek = (10, 0), jp_flags = 3\<rparr> = 10"
  "pulse_sweek False \<lparr>jp_sweek = (11, 0), jp_flags = 3\<rparr> = 11"
  "pulse_sweek False \<lparr>jp_sweek = (12, 0), jp_flags = 3\<rparr> = 12"
  "pulse_sweek False \<lparr>jp_sweek = (50, 0), jp_flags = 3\<rparr> = 50"
  by (simp_all add: pulse_sweek_def DS2UI_def getshort_def WEEKSECS_def signed_modulo_int_def)

theorem javad_parse_t_warp_log_witness:
  "concat (map (filter is_warp) (parse_t_run test_platform
       ((javad_config_vars zero_instance)\<lparr>gpos_gweek := 2190, gpos_sweek := 5\<rparr>)
       [\<lparr>jp_sweek = (10, 0), jp_flags = 3\<rparr>, \<lparr>jp_sweek = (11, 0), jp_flags = 3\<rparr>,
        \<lparr>jp_sweek = (12, 0), jp_flags = 3\<rparr>])) = []
   \<and> map (filter is_warp) (parse_t_run test_platform
       ((javad_config_vars zero_instance)\<lparr>gpos_gweek := 2190, gpos_sweek := 5\<rparr>)
       [\<lparr>jp_sweek = (10, 0), jp_flags = 3\<rparr>, \<lparr>jp_sweek = (11, 0), jp_flags = 3\<rparr>,
        \<lparr>jp_sweek = (50, 0), jp_flags = 3\<rparr>]) = [[], [], [SweekJumped 11 50]]"
proof -
  let ?i = "(javad_config_vars zero_instance)\<lparr>gpos_gweek := 2190, gpos_sweek := 5\<rparr>"
  have be: "WORDS_BIGENDIAN test_platform = False" by (simp add: test_platform_def)
  have l: "lastsweek ?i = 2 * WEEKSECS" by (simp add: javad_config_vars_def)
  have k: "gweek ?i \<noteq> 0 \<or> gpos_gweek ?i \<noteq> 0" by simp
  from javad_parse_t_warp_log [of ?i test_platform
      "[\<lparr>jp_sweek = (10, 0), jp_flags = 3\<rparr>, \<lparr>jp_sweek = (11, 0), jp_flags = 3\<rparr>,
        \<lparr>jp_sweek = (12, 0), jp_flags = 3\<rparr>]"
      "\<lparr>jp_sweek = (10, 0), jp_flags = 3\<rparr>" "\<lparr>jp_sweek = (11, 0), jp_flags = 3\<rparr>"
      "\<lparr>jp_sweek = (50, 0), jp_flags = 3\<rparr>"] l k
  show ?thesis by (simp add: be pulse_sweek_small)
qed

text \<open>
  The claim as stated fails in the state \<^verbatim>\<open>javad_config\<close> leaves (week unknown, no
  anchor): each of the pulse messages 10, 11, 50 is dropped with "Unknown gweek" before
  the check, and no warp is logged at the step to 50.
\<close>

theorem javad_parse_t_no_warp_without_anchor:
  "map (pulse_sweek (WORDS_BIGENDIAN test_platform))
       [\<lparr>jp_sweek = (10, 0), jp_flags = 3\<rparr>, \<lparr>jp_sweek = (11, 0), jp_flags = 3\<rparr>,
        \<lparr>jp_sweek = (50, 0), jp_flags = 3\<rparr>] = [10, 11, 50]
   \<and> parse_t_run test_platform (javad_config_vars zero_instance)
       [\<lparr>jp_sweek = (10, 0), jp_flags = 3\<rparr>, \<lparr>jp_sweek = (11, 0), jp_flags = 3\<rparr>,
        \<lparr>jp_sweek = (50, 0), jp_flags = 3\<rparr>] = [[], [], []]"
  by (simp add: eval_defs)

section \<open>Properties of the PPS poll\<close>

lemma timespec_eq: "(a :: timespec) = b \<longleftrightarrow> tv_sec a = tv_sec b \<and> tv_nsec a = tv_nsec b"
  by (cases a, cases b) simp

lemma pps_emit_same: "t = ts inst \<Longrightarrow> pps_emit pf inst t = (1, inst)"
  by (simp add: pps_emit_def)

lemma pps_emit_new:
  "t \<noteq> ts inst \<Longrightarrow> pps_emit pf inst t =
     (0, inst\<lparr>ts := t, procptr := (procptr inst)\<lparr>lastrec :=
            \<lparr>l_ui = ucast (tv_sec t) + JAN_1970 pf, l_uf = nsec_to_frac pf (tv_nsec t)\<rparr>\<rparr>\<rparr>)"
  by (auto simp: pps_emit_def timespec_eq)

lemma pps_emit_fields:
  "pps_info (snd (pps_emit pf inst t)) = pps_info inst"
  "pps_mode (snd (pps_emit pf inst t)) = pps_mode inst"
  "pps_handle (snd (pps_emit pf inst t)) = pps_handle inst"
  by (simp_all add: pps_emit_def)

lemma javad_pps_Some:
  assumes "pps_handle inst \<noteq> 0"
  shows "javad_pps pf inst (Some info) =
     (case selected_edge pf (pps_mode inst) (pps_info inst) of
        None \<Rightarrow> (1, inst\<lparr>pps_info := info\<rparr>)
      | Some (sq0, t0) \<Rightarrow>
          (case selected_edge pf (pps_mode inst) info of
             None \<Rightarrow> (1, inst\<lparr>pps_info := info\<rparr>)
           | Some (sq, t) \<Rightarrow> if sq0 = sq then (1, inst\<lparr>pps_info := info\<rparr>)
                             else pps_emit pf (inst\<lparr>pps_info := info\<rparr>) t))"
  using assms by (simp add: javad_pps_def selected_edge_def Let_def)

lemma javad_pps_fields:
  assumes "pps_handle inst \<noteq> 0"
  shows "pps_info (snd (javad_pps pf inst (Some info))) = info"
    and "pps_mode (snd (javad_pps pf inst (Some info))) = pps_mode inst"
    and "pps_handle (snd (javad_pps pf inst (Some info))) = pps_handle inst"
  by (simp_all add: javad_pps_Some [OF assms] pps_emit_fields split: option.split prod.split)

lemma javad_pps_repeat:
  "javad_pps pf (snd (javad_pps pf inst (Some info))) (Some info)
     = (1, snd (javad_pps pf inst (Some info)))"
proof (cases "pps_handle inst = 0")
  case True
  then show ?thesis by (simp add: javad_pps_def)
next
  case False
  let ?i1 = "snd (javad_pps pf inst (Some info))"
  have h: "pps_handle ?i1 \<noteq> 0" and p: "pps_info ?i1 = info"
    using False by (simp_all add: javad_pps_fields)
  have same: "?i1\<lparr>pps_info := info\<rparr> = ?i1" using p by (cases ?i1) simp
  show ?thesis
    by (simp add: javad_pps_Some [OF h] p same split: option.split prod.split)
qed

lemma javad_pps_quiet:
  assumes "fst (javad_pps pf inst fetched) = 1"
  shows "lastrec (procptr (snd (javad_pps pf inst fetched))) = lastrec (procptr inst)
         \<and> ts (snd (javad_pps pf inst fetched)) = ts inst"
proof (cases "pps_handle inst = 0 \<or> fetched = None")
  case True
  then show ?thesis by (auto simp: javad_pps_def)
next
  case False
  then obtain info where f: "fetched = Some info" and h: "pps_handle inst \<noteq> 0" by auto
  have e: "\<And>t. fst (pps_emit pf (inst\<lparr>pps_info := info\<rparr>) t) = 1 \<Longrightarrow>
      lastrec (procptr (snd (pps_emit pf (inst\<lparr>pps_info := info\<rparr>) t))) = lastrec (procptr inst)
      \<and> ts (snd (pps_emit pf (inst\<lparr>pps_info := info\<rparr>) t)) = ts inst"
    by (simp add: pps_emit_def split: if_splits)
  from assms show ?thesis
    unfolding f javad_pps_Some [OF h]
    by (auto split: option.splits prod.splits if_splits dest: e)
qed

text \<open>
  Claim C8. A poll for which the selected edge's sequence number equals the one of the
  last observation, or its timestamp equals the last one used, returns 1 (no new edge)
  and leaves \<^verbatim>\<open>lastrec\<close> and \<^verbatim>\<open>instance->ts\<close> as they were; so does every poll that
  returns 1. A second poll that fetches the same \<^verbatim>\<open>pps_info_t\<close> as the poll before it
  always returns 1 and changes nothing. When the first of the two polls finds a new
  sequence number and a new timestamp it returns 0 and writes the sample, so the pair
  fetched twice gives exactly one sample.
\<close>

theorem javad_pps_dedup:
  "(selected_edge pf (pps_mode inst) (pps_info inst) = Some (sq0, t0)
      \<and> selected_edge pf (pps_mode inst) info = Some (sq, t)
      \<and> (sq = sq0 \<or> t = ts inst)
     \<longrightarrow> fst (javad_pps pf inst (Some info)) = 1
         \<and> lastrec (procptr (snd (javad_pps pf inst (Some info)))) = lastrec (procptr inst)
         \<and> ts (snd (javad_pps pf inst (Some info))) = ts inst)
   \<and> (fst (javad_pps pf inst fetched) = 1
     \<longrightarrow> lastrec (procptr (snd (javad_pps pf inst fetched))) = lastrec (procptr inst)
         \<and> ts (snd (javad_pps pf inst fetched)) = ts inst)
   \<and> javad_pps pf (snd (javad_pps pf inst (Some info))) (Some info)
       = (1, snd (javad_pps pf inst (Some info)))
   \<and> (pps_handle inst \<noteq> 0
      \<and> selected_edge pf (pps_mode inst) (pps_info inst) = Some (sq0, t0)
      \<and> selected_edge pf (pps_mode inst) info = Some (sq, t)
      \<and> sq \<noteq> sq0 \<and> t \<noteq> ts inst
     \<longrightarrow> javad_pps pf inst (Some info) =
           (0, inst\<lparr>pps_info := info, ts := t,
                    procptr := (procptr inst)\<lparr>lastrec :=
                      \<lparr>l_ui = ucast (tv_sec t) + JAN_1970 pf,
                       l_uf = nsec_to_frac pf (tv_nsec t)\<rparr>\<rparr>\<rparr>))"
proof -
  have c1: "selected_edge pf (pps_mode inst) (pps_info inst) = Some (sq0, t0)
      \<and> selected_edge pf (pps_mode inst) info = Some (sq, t)
      \<and> (sq = sq0 \<or> t = ts inst)
     \<longrightarrow> fst (javad_pps pf inst (Some info)) = 1
         \<and> lastrec (procptr (snd (javad_pps pf inst (Some info)))) = lastrec (procptr inst)
         \<and> ts (snd (javad_pps pf inst (Some info))) = ts inst"
  proof
    assume "selected_edge pf (pps_mode inst) (pps_info inst) = Some (sq0, t0)
      \<and> selected_edge pf (pps_mode inst) info = Some (sq, t)
      \<and> (sq = sq0 \<or> t = ts inst)"
    then have a: "selected_edge pf (pps_mode inst) (pps_info inst) = Some (sq0, t0)"
      and b: "selected_edge pf (pps_mode inst) info = Some (sq, t)"
      and c: "sq = sq0 \<or> t = ts inst" by simp_all
    have r: "fst (javad_pps pf inst (Some info)) = 1"
    proof (cases "pps_handle inst = 0")
      case True
      then show ?thesis by (simp add: javad_pps_def)
    next
      case False
      from c show ?thesis by (auto simp: javad_pps_Some [OF False] a b pps_emit_same)
    qed
    with javad_pps_quiet [OF r]
    show "fst (javad_pps pf inst (Some info)) = 1
         \<and> lastrec (procptr (snd (javad_pps pf inst (Some info)))) = lastrec (procptr inst)
         \<and> ts (snd (javad_pps pf inst (Some info))) = ts inst"
      by simp
  qed
  have c2: "fst (javad_pps pf inst fetched) = 1
     \<longrightarrow> lastrec (procptr (snd (javad_pps pf inst fetched))) = lastrec (procptr inst)
         \<and> ts (snd (javad_pps pf inst fetched)) = ts inst"
    using javad_pps_quiet [of pf inst fetched] by blast
  have c3: "javad_pps pf (snd (javad_pps pf inst (Some info))) (Some info)
       = (1, snd (javad_pps pf inst (Some info)))"
    by (rule javad_pps_repeat)
  have c4: "pps_handle inst \<noteq> 0
      \<and> selected_edge pf (pps_mode inst) (pps_info inst) = Some (sq0, t0)
      \<and> selected_edge pf (pps_mode inst) info = Some (sq, t)
      \<and> sq \<noteq> sq0 \<and> t \<noteq> ts inst
     \<longrightarrow> javad_pps pf inst (Some info) =
           (0, inst\<lparr>pps_info := info, ts := t,
                    procptr := (procptr inst)\<lparr>lastrec :=
                      \<lparr>l_ui = ucast (tv_sec t) + JAN_1970 pf,
                       l_uf = nsec_to_frac pf (tv_nsec t)\<rparr>\<rparr>\<rparr>)"
  proof
    assume "pps_handle inst \<noteq> 0
      \<and> selected_edge pf (pps_mode inst) (pps_info inst) = Some (sq0, t0)
      \<and> selected_edge pf (pps_mode inst) info = Some (sq, t)
      \<and> sq \<noteq> sq0 \<and> t \<noteq> ts inst"
    then have h: "pps_handle inst \<noteq> 0"
      and a: "selected_edge pf (pps_mode inst) (pps_info inst) = Some (sq0, t0)"
      and b: "selected_edge pf (pps_mode inst) info = Some (sq, t)"
      and c: "sq \<noteq> sq0" and d: "t \<noteq> ts inst" by simp_all
    from d have d': "t \<noteq> ts (inst\<lparr>pps_info := info\<rparr>)" by simp
    from c have c': "sq0 \<noteq> sq" by simp
    show "javad_pps pf inst (Some info) =
           (0, inst\<lparr>pps_info := info, ts := t,
                    procptr := (procptr inst)\<lparr>lastrec :=
                      \<lparr>l_ui = ucast (tv_sec t) + JAN_1970 pf,
                       l_uf = nsec_to_frac pf (tv_nsec t)\<rparr>\<rparr>\<rparr>)"
      by (simp add: javad_pps_Some [OF h] a b c' pps_emit_new [OF d'])
  qed
  show ?thesis by (intro conjI) (rule c1, rule c2, rule c3, rule c4)
qed

theorem javad_pps_dedup_witness:
  "javad_pps test_platform (zero_instance\<lparr>pps_handle := 3, pps_mode := 1\<rparr>)
       (Some \<lparr>assert_sequence = 7, clear_sequence = 0,
              assert_timestamp = \<lparr>tv_sec = 100, tv_nsec = 500000000\<rparr>,
              clear_timestamp = \<lparr>tv_sec = 0, tv_nsec = 0\<rparr>\<rparr>)
     = (0, zero_instance\<lparr>pps_handle := 3, pps_mode := 1,
           pps_info := \<lparr>assert_sequence = 7, clear_sequence = 0,
              assert_timestamp = \<lparr>tv_sec = 100, tv_nsec = 500000000\<rparr>,
              clear_timestamp = \<lparr>tv_sec = 0, tv_nsec = 0\<rparr>\<rparr>,
           ts := \<lparr>tv_sec = 100, tv_nsec = 500000000\<rparr>,
           procptr := \<lparr>year = 0, day = 0, hour = 0, minute = 0, second = 0,
                       lastrec = \<lparr>l_ui = 2208988900, l_uf = 2147483648\<rparr>\<rparr>\<rparr>)
   \<and> javad_pps test_platform
        (zero_instance\<lparr>pps_handle := 3, pps_mode := 1,
           pps_info := \<lparr>assert_sequence = 7, clear_sequence = 0,
              assert_timestamp = \<lparr>tv_sec = 100, tv_nsec = 500000000\<rparr>,
              clear_timestamp = \<lparr>tv_sec = 0, tv_nsec = 0\<rparr>\<rparr>,
           ts := \<lparr>tv_sec = 100, tv_nsec = 500000000\<rparr>,
           procptr := \<lparr>year = 0, day = 0, hour = 0, minute = 0, second = 0,
                       lastrec = \<lparr>l_ui = 2208988900, l_uf = 2147483648\<rparr>\<rparr>\<rparr>)
        (Some \<lparr>assert_sequence = 7, clear_sequence = 0,
              assert_timestamp = \<lparr>tv_sec = 100, tv_nsec = 500000000\<rparr>,
              clear_timestamp = \<lparr>tv_sec = 0, tv_nsec = 0\<rparr>\<rparr>)
     = (1, zero_instance\<lparr>pps_handle := 3, pps_mode := 1,
           pps_info := \<lparr>assert_sequence = 7, clear_sequence = 0,
              assert_timestamp = \<lparr>tv_sec = 100, tv_nsec = 500000000\<rparr>,
              clear_timestamp = \<lparr>tv_sec = 0, tv_nsec = 0\<rparr>\<rparr>,
           ts := \<lparr>tv_sec = 100, tv_nsec = 500000000\<rparr>,
           procptr := \<lparr>year = 0, day = 0, hour = 0, minute = 0, second = 0,
                       lastrec = \<lparr>l_ui = 2208988900, l_uf = 2147483648\<rparr>\<rparr>\<rparr>)
   \<and> lastrec (procptr (snd (javad_pps test_platform
        (zero_instance\<lparr>pps_handle := 3, pps_mode := 1,
           pps_info := \<lparr>assert_sequence = 7, clear_sequence = 0,
              assert_timestamp = \<lparr>tv_sec = 100, tv_nsec = 500000000\<rparr>,
              clear_timestamp = \<lparr>tv_sec = 0, tv_nsec = 0\<rparr>\<rparr>,
           ts := \<lparr>tv_sec = 100, tv_nsec = 500000000\<rparr>,
           procptr := \<lparr>year = 0, day = 0, hour = 0, minute = 0, second = 0,
                       lastrec = \<lparr>l_ui = 2208988900, l_uf = 2147483648\<rparr>\<rparr>\<rparr>)
        (Some \<lparr>assert_sequence = 7, clear_sequence = 0,
              assert_timestamp = \<lparr>tv_sec = 100, tv_nsec = 500000000\<rparr>,
              clear_timestamp = \<lparr>tv_sec = 0, tv_nsec = 0\<rparr>\<rparr>))))
       = \<lparr>l_ui = 2208988900, l_uf = 2147483648\<rparr>"
proof -
  let ?i = "zero_instance\<lparr>pps_handle := 3, pps_mode := 1\<rparr>"
  let ?t = "\<lparr>tv_sec = 100, tv_nsec = 500000000\<rparr> :: timespec"
  let ?info = "\<lparr>assert_sequence = 7, clear_sequence = 0, assert_timestamp = ?t,
              clear_timestamp = \<lparr>tv_sec = 0, tv_nsec = 0\<rparr>\<rparr>"
  let ?i1 = "?i\<lparr>pps_info := ?info, ts := ?t,
              procptr := \<lparr>year = 0, day = 0, hour = 0, minute = 0, second = 0,
                       lastrec = \<lparr>l_ui = 2208988900, l_uf = 2147483648\<rparr>\<rparr>\<rparr>"
  have h: "pps_handle ?i \<noteq> 0" by simp
  have a: "selected_edge test_platform (pps_mode ?i) (pps_info ?i) = Some (0, \<lparr>tv_sec = 0, tv_nsec = 0\<rparr>)"
    by (simp add: selected_edge_def test_platform_def zero_instance_def)
  have b: "selected_edge test_platform (pps_mode ?i) ?info = Some (7, ?t)"
    by (simp add: selected_edge_def test_platform_def)
  have c: "(7 :: 64 word) \<noteq> 0" by simp
  have d: "?t \<noteq> ts ?i" by (simp add: zero_instance_def)
  note th = javad_pps_dedup [where inst = ?i and pf = test_platform and ?sq0.0 = 0
      and ?t0.0 = "\<lparr>tv_sec = 0, tv_nsec = 0\<rparr>" and info = ?info and sq = 7 and t = ?t
      and fetched = "Some ?info"]
  from th h a b c d have first: "javad_pps test_platform ?i (Some ?info) =
      (0, ?i\<lparr>pps_info := ?info, ts := ?t,
              procptr := (procptr ?i)\<lparr>lastrec :=
                \<lparr>l_ui = ucast (tv_sec ?t) + JAN_1970 test_platform,
                 l_uf = nsec_to_frac test_platform (tv_nsec ?t)\<rparr>\<rparr>\<rparr>)"
    by blast
  have v1: "(ucast (tv_sec ?t) + JAN_1970 test_platform :: u_int) = 2208988900"
    by (simp add: test_platform_def)
  have v2: "nsec_to_frac test_platform (tv_nsec ?t) = 2147483648"
    by (simp add: test_platform_def)
  have "javad_pps test_platform ?i (Some ?info) =
      (0, ?i\<lparr>pps_info := ?info, ts := ?t,
              procptr := (procptr ?i)\<lparr>lastrec := \<lparr>l_ui = 2208988900, l_uf = 2147483648\<rparr>\<rparr>\<rparr>)"
    using first by (simp only: v1 v2)
  moreover have "procptr ?i = \<lparr>year = 0, day = 0, hour = 0, minute = 0, second = 0,
                       lastrec = \<lparr>l_ui = 0, l_uf = 0\<rparr>\<rparr>"
    by (simp add: zero_instance_def)
  ultimately have one: "javad_pps test_platform ?i (Some ?info) = (0, ?i1)"
    by simp
  from th have "javad_pps test_platform (snd (javad_pps test_platform ?i (Some ?info))) (Some ?info)
      = (1, snd (javad_pps test_platform ?i (Some ?info)))"
    by blast
  then have two: "javad_pps test_platform ?i1 (Some ?info) = (1, ?i1)"
    by (simp only: one snd_conv)
  have a2: "selected_edge test_platform (pps_mode ?i1) (pps_info ?i1) = Some (7, ?t)"
    by (simp add: selected_edge_def test_platform_def)
  have b2: "selected_edge test_platform (pps_mode ?i1) ?info = Some (7, ?t)"
    by (simp add: selected_edge_def test_platform_def)
  note th2 = javad_pps_dedup [where inst = ?i1 and pf = test_platform and ?sq0.0 = 7
      and ?t0.0 = ?t and info = ?info and sq = 7 and t = ?t and fetched = "Some ?info"]
  from th2 a2 b2 have quiet: "fst (javad_pps test_platform ?i1 (Some ?info)) = 1
      \<and> lastrec (procptr (snd (javad_pps test_platform ?i1 (Some ?info)))) = lastrec (procptr ?i1)
      \<and> ts (snd (javad_pps test_platform ?i1 (Some ?info))) = ts ?i1"
    by blast
  from quiet have three: "lastrec (procptr (snd (javad_pps test_platform ?i1 (Some ?info))))
      = \<lparr>l_ui = 2208988900, l_uf = 2147483648\<rparr>"
    by simp
  from one two three show ?thesis by (intro conjI)
qed

section \<open>Properties of the binary reader\<close>

lemma length_shorts_from: "length (shorts_from b buf k cnt) = cnt"
  by (simp add: shorts_from_def)

lemma javad_cksum_shorts:
  "javad_cksum b (shorts_from b buf k cnt) cnt
     = Some (- sum_list (map (getshort b) (shorts_from b buf k cnt)))"
  using javad_cksum_neg [of b "shorts_from b buf k cnt"] by (simp add: length_shorts_from)

text \<open>
  Claim C6 (as amended). A frame at the head of the buffer with the sync short, a good
  header checksum and a declared payload length \<open>L > 0\<close>, of which all
  \<open>12 + 2 * (L + 1)\<close> bytes are buffered: the payload is \<open>L\<close> shorts followed by the
  checksum short. The reader computes the checksum over those \<open>L\<close> shorts, the negated
  sum of them, and compares it with the short after them; it returns the frame's size
  \<open>12 + 2 * (L + 1)\<close> exactly when they are equal, and otherwise empties the buffer and
  returns 0.
\<close>

theorem javad_recv_payload:
  assumes "getshort (WORDS_BIGENDIAN pf) (short_at (WORDS_BIGENDIAN pf) (sbuf inst) jh_sync) = JAVAD_SYNC pf"
    and "javad_cksum (WORDS_BIGENDIAN pf) (shorts_from (WORDS_BIGENDIAN pf) (sbuf inst) 0 5) 5
           = Some (getshort (WORDS_BIGENDIAN pf) (short_at (WORDS_BIGENDIAN pf) (sbuf inst) jh_hsum))"
    and "uint (getshort (WORDS_BIGENDIAN pf) (short_at (WORDS_BIGENDIAN pf) (sbuf inst) jh_len)) = int L"
    and "L > 0"
    and "ssize inst \<ge> 12 + 2 * (int L + 1)"
  shows "javad_recv pf inst =
           (if - sum_list (map (getshort (WORDS_BIGENDIAN pf))
                    (shorts_from (WORDS_BIGENDIAN pf) (sbuf inst) 6 L))
                 = getshort (WORDS_BIGENDIAN pf) (short_at (WORDS_BIGENDIAN pf) (sbuf inst) (6 + L))
            then (12 + 2 * (int L + 1), inst, [])
            else (0, inst\<lparr>ssize := 0\<rparr>, [BadPayloadChecksum]))"
proof -
  let ?be = "WORDS_BIGENDIAN pf"
  have big: "\<not> ssize inst < 12" using assms(5) by simp
  have r: "javad_recv pf inst = recv_check pf inst (ssize inst) []"
    using big assms(1) by (simp add: javad_recv_def sizeof_jheader_def Let_def)
  have c: "recv_check pf inst (ssize inst) [] =
      (if javad_cksum ?be (shorts_from ?be (sbuf inst) 6 L) L
            \<noteq> Some (getshort ?be (short_at ?be (sbuf inst) (6 + L)))
       then (0, inst\<lparr>ssize := 0\<rparr>, [BadPayloadChecksum])
       else (12 + 2 * (int L + 1), inst, []))"
    using assms(2-5) by (simp add: recv_check_def sizeof_jheader_def Let_def)
  show ?thesis unfolding r c javad_cksum_shorts by auto
qed

theorem javad_recv_payload_witness:
  "javad_recv test_platform (zero_instance\<lparr>sbuf := example_frame, ssize := 16\<rparr>)
     = (16, zero_instance\<lparr>sbuf := example_frame, ssize := 16\<rparr>, [])"
proof -
  let ?i = "zero_instance\<lparr>sbuf := example_frame, ssize := 16\<rparr>"
  let ?be = "WORDS_BIGENDIAN test_platform"
  have h1: "getshort ?be (short_at ?be (sbuf ?i) jh_sync) = JAVAD_SYNC test_platform"
    by code_simp
  have h2: "javad_cksum ?be (shorts_from ?be (sbuf ?i) 0 5) 5
           = Some (getshort ?be (short_at ?be (sbuf ?i) jh_hsum))"
    by code_simp
  have h3: "uint (getshort ?be (short_at ?be (sbuf ?i) jh_len)) = int 1"
    by code_simp
  have h4: "(1 :: nat) > 0" by simp
  have h5: "ssize ?i \<ge> 12 + 2 * (int 1 + 1)" by simp
  have c: "- sum_list (map (getshort ?be) (shorts_from ?be (sbuf ?i) 6 1))
                 = getshort ?be (short_at ?be (sbuf ?i) (6 + 1))"
    by code_simp
  from javad_recv_payload [OF h1 h2 h3 h4 h5]
  have "javad_recv test_platform ?i =
      (if - sum_list (map (getshort ?be) (shorts_from ?be (sbuf ?i) 6 1))
                 = getshort ?be (short_at ?be (sbuf ?i) (6 + 1))
       then (12 + 2 * (int 1 + 1), ?i, []) else (0, ?i\<lparr>ssize := 0\<rparr>, [BadPayloadChecksum]))" .
  then have "javad_recv test_platform ?i = (12 + 2 * (int 1 + 1), ?i, [])"
    by (simp only: c simp_thms if_True)
  then show ?thesis by simp
qed

text \<open>
  The claim as stated fails. The example buffer declares payload length 1. The reader
  takes one payload short and the checksum short after it and accepts the frame with size
  16; by the claim's layout the payload would be two shorts, \<open>1\<close> and \<open>0xffff\<close>, with
  checksum 0, followed by the checksum short 5, and the frame would be refused.
\<close>

theorem javad_recv_accepts_one_word_payload:
  "uint (getshort False (short_at False example_frame jh_len)) = 1
   \<and> fst (javad_recv test_platform (zero_instance\<lparr>sbuf := example_frame, ssize := 18\<rparr>)) = 16
   \<and> \<not> spec_payload_check False example_frame 1"
  by code_simp

section \<open>Properties of the line input\<close>

lemma scan_eol_step:
  "scan_eol buf i (Suc (Suc n)) = Inr (Some e) \<Longrightarrow>
     e = i + 2 \<or> scan_eol buf (i + 1) (Suc n) = Inr (Some e)"
  by (simp split: if_splits)

lemma scan_eol_bounds:
  "scan_eol buf i n = Inr (Some e) \<Longrightarrow> i + 2 \<le> e \<and> e \<le> i + n"
proof (induction n arbitrary: i)
  case 0
  then show ?case by simp
next
  case (Suc m)
  show ?case
  proof (cases m)
    case 0
    with Suc.prems show ?thesis by simp
  next
    case (Suc k)
    with Suc.prems have "e = i + 2 \<or> scan_eol buf (i + 1) m = Inr (Some e)"
      using scan_eol_step [of buf i k e] by simp
    then show ?thesis
    proof
      assume "e = i + 2"
      with Suc show ?thesis by simp
    next
      assume "scan_eol buf (i + 1) m = Inr (Some e)"
      then have "i + 1 + 2 \<le> e \<and> e \<le> i + 1 + m" by (rule Suc.IH)
      then show ?thesis by simp
    qed
  qed
qed

lemma scan_eol_fault: "scan_eol buf i n = Inl f \<Longrightarrow> f = ReadOverrun"
proof (induction n arbitrary: i)
  case 0
  then show ?case by simp
next
  case (Suc m)
  show ?case
  proof (cases m)
    case 0
    with Suc.prems show ?thesis by simp
  next
    case (Suc k)
    with Suc.prems have "f = ReadOverrun \<or> scan_eol buf (i + 1) m = Inl f"
      by (simp split: if_splits)
    with Suc.IH show ?thesis by blast
  qed
qed

lemma strlcpy_fault: "strlcpy_ibuf buf off src n = Inl f \<Longrightarrow> f = WriteOverrun"
  by (simp add: strlcpy_ibuf_def Let_def split: if_splits)

lemma javad_receive_no_abort: "javad_receive inst data \<noteq> Inl Abort"
proof -
  let ?len = "clamp_len (ssize inst) (int (length data))"
  let ?s1 = "ssize inst + ?len"
  show ?thesis
  proof (cases "strlcpy_ibuf (ibuf inst) (ssize inst) data (nat ?len)")
    case (Inl f)
    then have "f = WriteOverrun" by (rule strlcpy_fault)
    with Inl show ?thesis by (simp add: javad_receive_def Let_def)
  next
    case cp: (Inr buf1)
    show ?thesis
    proof (cases "scan_eol buf1 0 (nat ?s1)")
      case (Inl f)
      then have "f = ReadOverrun" by (rule scan_eol_fault)
      with Inl cp show ?thesis by (simp add: javad_receive_def Let_def)
    next
      case (Inr r)
      show ?thesis
      proof (cases r)
        case None
        with Inr cp show ?thesis by (simp add: javad_receive_def Let_def)
      next
        case (Some e)
        with Inr have "scan_eol buf1 0 (nat ?s1) = Inr (Some e)" by simp
        then have "0 + 2 \<le> e \<and> e \<le> 0 + nat ?s1" by (rule scan_eol_bounds)
        then have "int e \<le> ?s1" by linarith
        with Some Inr cp show ?thesis by (simp add: javad_receive_def Let_def)
      qed
    qed
  qed
qed

lemma receive_run_no_abort: "receive_run inst ds \<noteq> Inl Abort"
proof (induction ds arbitrary: inst)
  case Nil
  show ?case by simp
next
  case (Cons d ds)
  show ?case
  proof (cases "javad_receive inst d")
    case (Inl f)
    with javad_receive_no_abort [of inst d] show ?thesis by simp
  next
    case (Inr p)
    obtain inst' out where p: "p = (inst', out)" by (cases p)
    with Inr Cons.IH [of inst'] show ?thesis by (auto split: sum.splits)
  qed
qed

text \<open>
  Claim C10. Whenever the search finds CR LF, the offset of \<^verbatim>\<open>eol\<close> (the position of
  the LF plus one, the length of the line with its terminator) is at most the length
  searched, \<^verbatim>\<open>ssize\<close>. So no call of \<^verbatim>\<open>javad_receive\<close>, in any state and for any
  delivery, and no sequence of calls reaches \<^verbatim>\<open>abort()\<close>.
\<close>

theorem javad_receive_abort_unreachable:
  "(scan_eol buf 0 n = Inr (Some eol) \<longrightarrow> eol \<le> n)
   \<and> javad_receive inst data \<noteq> Inl Abort
   \<and> receive_run inst ds \<noteq> Inl Abort"
  using scan_eol_bounds [of buf 0 n eol] javad_receive_no_abort [of inst data]
    receive_run_no_abort [of inst ds]
  by simp

theorem javad_receive_abort_unreachable_witness:
  "scan_eol [97, 13, 10, 98, 0] 0 4 = Inr (Some 3) \<and> (3 :: nat) \<le> 4
   \<and> receive_run (javad_config_vars zero_instance) [[97, 13], [10, 98]] \<noteq> Inl Abort"
proof -
  have s: "scan_eol [97, 13, 10, 98, 0] 0 4 = Inr (Some 3)" by code_simp
  from javad_receive_abort_unreachable [of "[97, 13, 10, 98, 0]" 4 3
      "javad_config_vars zero_instance" "[]" "[[97, 13], [10, 98]]"] s
  show ?thesis by simp
qed

lemma clamp_len_min:
  assumes "0 \<le> s" "s \<le> 513" "0 \<le> l" "l < 2 ^ 31"
  shows "clamp_len s l = min l (513 - s)"
proof -
  have a: "size_t_of (512 - size_t_of (s - 1)) = 513 - s"
  proof (cases "s = 0")
    case True
    then show ?thesis by (simp add: size_t_of_def)
  next
    case False
    with assms have "0 \<le> s - 1" "s - 1 < 2 ^ 64" by simp_all
    then have "size_t_of (s - 1) = s - 1" by (simp add: size_t_of_def)
    moreover have "0 \<le> 513 - s" "513 - s < 2 ^ 64" using assms by simp_all
    then have "size_t_of (513 - s) = 513 - s" by (simp add: size_t_of_def)
    ultimately show ?thesis by simp
  qed
  have b: "size_t_of l = l" using assms by (simp add: size_t_of_def)
  have c: "int_of_size_t (513 - s) = 513 - s" using assms by (simp add: int_of_size_t_def)
  show ?thesis by (simp add: clamp_len_def a b c Let_def min_def)
qed



lemma take_Suc_drop:
  "i < length buf \<Longrightarrow> take (Suc n) (drop i buf) = buf ! i # take n (drop (Suc i) buf)"
  by (simp flip: Cons_nth_drop_Suc)

lemma find_crlf_skip:
  "\<not> (a = 13 \<and> b = 10) \<Longrightarrow> find_crlf (a # b # xs) = map_option Suc (find_crlf (b # xs))"
  by auto

lemma scan_eol_find:
  "i + n \<le> 512 \<Longrightarrow> i + n \<le> length buf \<Longrightarrow>
   scan_eol buf i n = Inr (map_option (\<lambda>e. i + e) (find_crlf (take n (drop i buf))))"
proof (induction n arbitrary: i)
  case 0
  then show ?case by simp
next
  case (Suc m)
  show ?case
  proof (cases m)
    case 0
    with Suc.prems have "i < length buf" by simp
    then have "take (Suc 0) (drop i buf) = [buf ! i]" by (simp add: take_Suc_drop)
    with 0 show ?thesis by simp
  next
    case (Suc k)
    with Suc.prems have i: "i < length buf" "Suc i < length buf" "i < 512" "i + 1 < 512" by simp_all
    let ?rest = "take m (drop (Suc i) buf)"
    have t1: "take (Suc m) (drop i buf) = buf ! i # ?rest" using i(1) by (rule take_Suc_drop)
    have t2: "?rest = buf ! (Suc i) # take k (drop (Suc (Suc i)) buf)"
      unfolding Suc using i(2) by (rule take_Suc_drop)
    from Suc.prems have "Suc i + m \<le> 512" "Suc i + m \<le> length buf" by simp_all
    then have ih: "scan_eol buf (Suc i) m = Inr (map_option (\<lambda>e. Suc i + e) (find_crlf ?rest))"
      by (rule Suc.IH)
    show ?thesis
    proof (cases "buf ! i = 13 \<and> buf ! (Suc i) = 10")
      case True
      have "scan_eol buf i (Suc (Suc k)) = Inr (Some (i + 2))" using True i by simp
      moreover have "find_crlf (take (Suc m) (drop i buf)) = Some 2"
        unfolding t1 t2 using True by simp
      ultimately show ?thesis unfolding Suc by simp
    next
      case False
      have "scan_eol buf i (Suc (Suc k)) = scan_eol buf (Suc i) (Suc k)" using False i by auto
      moreover have "find_crlf (buf ! i # buf ! (Suc i) # take k (drop (Suc (Suc i)) buf))
          = map_option Suc (find_crlf (buf ! (Suc i) # take k (drop (Suc (Suc i)) buf)))"
        using False by (rule find_crlf_skip)
      then have "find_crlf (take (Suc m) (drop i buf)) = map_option Suc (find_crlf ?rest)"
        by (simp only: t1 flip: t2)
      ultimately show ?thesis using ih unfolding Suc
        by (simp add: option.map_comp comp_def)
    qed
  qed
qed













lemma find_crlf_bounds: "find_crlf xs = Some e \<Longrightarrow> 2 \<le> e \<and> e \<le> length xs"
  by (induction xs arbitrary: e rule: find_crlf.induct) (auto split: if_splits)

lemma find_crlf_append: "find_crlf xs = Some e \<Longrightarrow> find_crlf (xs @ ys) = Some e"
  by (induction xs arbitrary: e rule: find_crlf.induct) (auto split: if_splits)

lemma find_crlf_prefix_None: "find_crlf (xs @ ys) = None \<Longrightarrow> find_crlf xs = None"
  using find_crlf_append [of xs _ ys] by (cases "find_crlf xs") auto

lemma queue_run_single_line:
  "find_crlf pend = None \<Longrightarrow> crlf_at_most_once (pend @ concat ds) \<Longrightarrow>
   queue_run pend ds =
     (case find_crlf (pend @ concat ds) of None \<Rightarrow> [] | Some e \<Rightarrow> [take e (pend @ concat ds)])"
proof (induction ds arbitrary: pend)
  case Nil
  then show ?case by simp
next
  case (Cons d ds)
  let ?all = "pend @ d"
  let ?tot = "pend @ concat (d # ds)"
  have tot: "?tot = ?all @ concat ds" by simp
  show ?case
  proof (cases "find_crlf ?all")
    case None
    then have st: "queue_step pend d = (?all, None)" by (simp add: queue_step_def)
    have am: "crlf_at_most_once (?all @ concat ds)" using Cons.prems(2) unfolding tot .
    have "queue_run pend (d # ds) = queue_run ?all ds" by (simp add: st)
    also have "\<dots> = (case find_crlf (?all @ concat ds) of None \<Rightarrow> []
                        | Some e \<Rightarrow> [take e (?all @ concat ds)])"
      by (rule Cons.IH [OF None am])
    finally show ?thesis unfolding tot .
  next
    case (Some e)
    then have st: "queue_step pend d = (drop e ?all, Some (take e ?all))" by (simp add: queue_step_def)
    from Some have ft: "find_crlf ?tot = Some e" unfolding tot by (rule find_crlf_append)
    from Some have e: "e \<le> length ?all" using find_crlf_bounds by blast
    have dr: "drop e (?all @ concat ds) = drop e ?all @ concat ds" using e by simp
    have tk: "take e (?all @ concat ds) = take e ?all" using e by simp
    from Cons.prems(2) ft have rest: "find_crlf (drop e ?all @ concat ds) = None"
      unfolding tot by (simp only: crlf_at_most_once_def option.case dr)
    from rest have n1: "find_crlf (drop e ?all) = None" by (rule find_crlf_prefix_None)
    have n2: "crlf_at_most_once (drop e ?all @ concat ds)"
      using rest by (simp add: crlf_at_most_once_def)
    from Cons.IH [OF n1 n2] rest have q: "queue_run (drop e ?all) ds = []" by simp
    have "queue_run pend (d # ds) = [take e ?all]"
      by (simp only: queue_run.simps st fst_conv snd_conv option.case q append_Nil2)
    also have "\<dots> = (case find_crlf (?all @ concat ds) of None \<Rightarrow> []
                        | Some e \<Rightarrow> [take e (?all @ concat ds)])"
      using ft unfolding tot by (simp only: option.case tk)
    finally show ?thesis unfolding tot .
  qed
qed

lemma javad_receive_queue_step:
  assumes B: "buffered inst pend" and N: "0 \<notin> set data"
    and S: "length pend + length data \<le> 255"
  shows "\<exists>inst'. javad_receive inst data = Inr (inst', snd (queue_step pend data))
            \<and> buffered inst' (fst (queue_step pend data))"
proof -
  define all where "all = pend @ data"
  define a where "a = length all"
  define buf1 where "buf1 = all @ 0 # drop (a + 1) (ibuf inst)"
  from B have lb: "length (ibuf inst) = 512" and sz: "ssize inst = int (length pend)"
    and tk: "take (length pend) (ibuf inst) = pend" by (simp_all add: buffered_def)
  have a: "a \<le> 255" using S by (simp add: a_def all_def)
  have la: "length all = a" by (simp add: a_def)
  have cl: "clamp_len (ssize inst) (int (length data)) = int (length data)"
  proof -
    have "clamp_len (int (length pend)) (int (length data))
        = min (int (length data)) (513 - int (length pend))"
      using S by (intro clamp_len_min) simp_all
    then show ?thesis using S by (simp add: sz)
  qed
  have tw: "takeWhile (\<lambda>c. c \<noteq> 0) data = data"
    using N by (simp add: takeWhile_eq_all_conv) metis
  have cp: "strlcpy_ibuf (ibuf inst) (ssize inst) data (nat (int (length data))) = Inr buf1"
    using S by (simp add: strlcpy_ibuf_def sz tw tk Let_def buf1_def a_def all_def)
  have l1: "length buf1 = 512" using a lb la by (simp add: buf1_def)
  have t1: "take a buf1 = all" using la by (simp add: buf1_def)
  have s1: "ssize inst + int (length data) = int a" by (simp add: sz a_def all_def)
  have sc: "scan_eol buf1 0 a = Inr (find_crlf all)"
  proof -
    have "scan_eol buf1 0 a = Inr (map_option (\<lambda>e. 0 + e) (find_crlf (take a (drop 0 buf1))))"
      using a l1 by (intro scan_eol_find) simp_all
    also have "take a (drop 0 buf1) = all" using t1 by simp
    finally show ?thesis by (simp add: option.map_ident)
  qed
  have unf: "javad_receive inst data =
      (case find_crlf all of
         None \<Rightarrow> Inr (inst\<lparr>ibuf := buf1, ssize := int a\<rparr>, None)
       | Some eol \<Rightarrow>
           if int a = int eol then Inr (inst\<lparr>ibuf := buf1[0 := 0], ssize := 0\<rparr>, Some (take eol buf1))
           else if int a > int eol then
             (if eol + a \<ge> 512 then Inl ReadOverrun
              else Inr (inst\<lparr>ibuf := take (a + 1) (drop eol buf1) @ drop (a + 1) buf1,
                             ssize := int a - int eol\<rparr>, Some (take eol buf1)))
           else Inl Abort)"
    unfolding javad_receive_def cl Let_def cp s1
    by (simp only: sum.case nat_int sc option.case split: option.split)
  show ?thesis
  proof (cases "find_crlf all")
    case None
    then have q: "queue_step pend data = (all, None)" by (simp add: queue_step_def all_def)
    have "buffered (inst\<lparr>ibuf := buf1, ssize := int a\<rparr>) all"
      using l1 t1 la by (simp add: buffered_def)
    with None show ?thesis unfolding unf q by simp
  next
    case (Some e)
    then have q: "queue_step pend data = (drop e all, Some (take e all))"
      by (simp add: queue_step_def all_def)
    from Some have e: "2 \<le> e" "e \<le> a" using find_crlf_bounds la by blast+
    have "take e buf1 = take e (take a buf1)" using e(2) by (simp add: min_def)
    then have ln: "take e buf1 = take e all" by (simp only: t1)
    show ?thesis
    proof (cases "e = a")
      case True
      have "buffered (inst\<lparr>ibuf := buf1[0 := 0], ssize := 0\<rparr>) (drop e all)"
        using True l1 la by (simp add: buffered_def)
      then show ?thesis unfolding unf q Some using True ln by simp
    next
      case False
      with e have lt: "e < a" by simp
      have ov: "\<not> 512 \<le> e + a" using a lt by simp
      define buf2 where "buf2 = take (a + 1) (drop e buf1) @ drop (a + 1) buf1"
      have l2: "length buf2 = 512"
      proof -
        have "length (take (a + 1) (drop e buf1)) = a + 1" using l1 ov by simp
        moreover have "length (drop (a + 1) buf1) = 512 - (a + 1)" using l1 by simp
        ultimately show ?thesis using a by (simp add: buf2_def)
      qed
      have "take (a - e) buf2 = take (a - e) (drop e buf1)"
        using l1 ov by (simp add: buf2_def)
      also have "\<dots> = drop e (take a buf1)" using lt by (simp add: drop_take)
      also have "\<dots> = drop e all" by (simp only: t1)
      finally have t2: "take (a - e) buf2 = drop e all" .
      have "buffered (inst\<lparr>ibuf := buf2, ssize := int a - int e\<rparr>) (drop e all)"
        unfolding buffered_def using l2 t2 lt la by simp
      then have "buffered (inst\<lparr>ibuf := take (a + 1) (drop e buf1) @ drop (a + 1) buf1,
                                   ssize := int a - int e\<rparr>) (drop e all)"
        by (simp only: buf2_def)
      then show ?thesis unfolding unf q Some using lt ov ln by simp
    qed
  qed
qed

lemma length_queue_step: "length (fst (queue_step pend d)) \<le> length pend + length d"
proof (cases "find_crlf (pend @ d)")
  case None
  then show ?thesis by (simp add: queue_step_def)
next
  case (Some e)
  have "length (drop e (pend @ d)) \<le> length (pend @ d)" by (simp only: length_drop diff_le_self)
  with Some show ?thesis by (simp add: queue_step_def del: drop_append length_drop)
qed

lemma receive_run_queue_run:
  "buffered inst pend \<Longrightarrow> 0 \<notin> set (concat ds) \<Longrightarrow>
   length pend + length (concat ds) \<le> 255 \<Longrightarrow>
   \<exists>inst'. receive_run inst ds = Inr (inst', queue_run pend ds)"
proof (induction ds arbitrary: inst pend)
  case Nil
  then show ?case by simp
next
  case (Cons d ds)
  from Cons.prems(2) have n0: "0 \<notin> set d" and n1: "0 \<notin> set (concat ds)" by simp_all
  from Cons.prems(3) have s0: "length pend + length d \<le> 255" by simp
  obtain inst1 where r1: "javad_receive inst d = Inr (inst1, snd (queue_step pend d))"
    and b1: "buffered inst1 (fst (queue_step pend d))"
    using javad_receive_queue_step [OF Cons.prems(1) n0 s0] by blast
  have "length (fst (queue_step pend d)) + length (concat ds) \<le> 255"
    using length_queue_step [of pend d] Cons.prems(3) by simp
  from Cons.IH [OF b1 n1 this] obtain inst2 where
    r2: "receive_run inst1 ds = Inr (inst2, queue_run (fst (queue_step pend d)) ds)" by blast
  show ?case by (simp add: r1 r2)
qed

text \<open>
  Claim C5 (as amended). For a byte sequence without NUL bytes, of at most 255 bytes and
  with at most one CR LF, delivered to a scanner whose buffer is empty: delivering it one
  byte at a time, all at once, or in any other chunks, zero-length deliveries included,
  emits the same frames, namely the line up to and including the CR LF if there is one
  and nothing otherwise; no delivery accesses bytes outside the buffer.
\<close>

theorem javad_receive_chunking:
  assumes "ssize inst = 0" and "length (ibuf inst) = 512"
    and "0 \<notin> set bs" and "length bs \<le> 255" and "crlf_at_most_once bs"
    and "concat ds = bs"
  shows "\<exists>i1 i2 i3 fs.
           receive_run inst (map (\<lambda>b. [b]) bs) = Inr (i1, fs)
           \<and> receive_run inst [bs] = Inr (i2, fs)
           \<and> receive_run inst ds = Inr (i3, fs)
           \<and> fs = (case find_crlf bs of None \<Rightarrow> [] | Some e \<Rightarrow> [take e bs])"
proof -
  let ?fs = "case find_crlf bs of None \<Rightarrow> [] | Some e \<Rightarrow> [take e bs]"
  have b: "buffered inst []" using assms(1,2) by (simp add: buffered_def)
  have run: "\<exists>i. receive_run inst cs = Inr (i, ?fs)" if c: "concat cs = bs" for cs
  proof -
    have "0 \<notin> set (concat cs)" "length [] + length (concat cs) \<le> 255"
      using assms(3,4) c by simp_all
    with b obtain i where "receive_run inst cs = Inr (i, queue_run [] cs)"
      using receive_run_queue_run by blast
    moreover have "queue_run [] cs =
        (case find_crlf ([] @ concat cs) of None \<Rightarrow> [] | Some e \<Rightarrow> [take e ([] @ concat cs)])"
      using assms(5) c by (intro queue_run_single_line) simp_all
    then have "queue_run [] cs = ?fs" by (simp only: append_Nil c)
    ultimately show ?thesis by simp
  qed
  have "concat (map (\<lambda>b. [b]) bs) = bs" by (induction bs) simp_all
  then obtain i1 where "receive_run inst (map (\<lambda>b. [b]) bs) = Inr (i1, ?fs)" using run by blast
  moreover obtain i2 where "receive_run inst [bs] = Inr (i2, ?fs)" using run [of "[bs]"] by auto
  moreover obtain i3 where "receive_run inst ds = Inr (i3, ?fs)" using run [OF assms(6)] by blast
  ultimately show ?thesis by blast
qed

theorem javad_receive_chunking_witness:
  "\<exists>i1 i2 i3.
     receive_run (javad_config_vars zero_instance) (map (\<lambda>b. [b]) [97, 98, 13, 10])
       = Inr (i1, [[97, 98, 13, 10]])
     \<and> receive_run (javad_config_vars zero_instance) [[97, 98, 13, 10]] = Inr (i2, [[97, 98, 13, 10]])
     \<and> receive_run (javad_config_vars zero_instance) [[97], [], [98, 13], [], [10]]
       = Inr (i3, [[97, 98, 13, 10]])"
proof -
  let ?i = "javad_config_vars zero_instance"
  let ?bs = "[97, 98, 13, 10] :: u_char list"
  let ?ds = "[[97], [], [98, 13], [], [10]] :: u_char list list"
  have h1: "ssize ?i = 0" by (simp add: javad_config_vars_def)
  have h2: "length (ibuf ?i) = 512" by (simp add: javad_config_vars_def zero_instance_def)
  have h3: "0 \<notin> set ?bs" by simp
  have h4: "length ?bs \<le> 255" by simp
  have f: "find_crlf ?bs = Some 4" by simp
  have h5: "crlf_at_most_once ?bs" by (simp add: crlf_at_most_once_def)
  have h6: "concat ?ds = ?bs" by simp
  from javad_receive_chunking [OF h1 h2 h3 h4 h5 h6] f
  show ?thesis by simp
qed

text \<open>
  The claim as stated fails. The six bytes \<open>a CR LF b CR LF\<close> delivered at once emit
  only the first line, since a call prints at most one line; delivered one byte at a time
  they emit both lines, and so does the single delivery followed by a zero-length one.
  The five bytes \<open>a NUL b CR LF\<close> delivered at once emit nothing, since the copy stops at
  the NUL; delivered one byte at a time they emit the line.
\<close>

theorem javad_receive_chunks_differ:
  "map_sum id snd (receive_run (javad_config_vars zero_instance) [[97, 13, 10, 98, 13, 10]])
     = Inr [[97, 13, 10]]
   \<and> map_sum id snd (receive_run (javad_config_vars zero_instance)
        (map (\<lambda>b. [b]) [97, 13, 10, 98, 13, 10]))
     = Inr [[97, 13, 10], [98, 13, 10]]
   \<and> map_sum id snd (receive_run (javad_config_vars zero_instance) [[97, 13, 10, 98, 13, 10], []])
     = Inr [[97, 13, 10], [98, 13, 10]]
   \<and> map_sum id snd (receive_run (javad_config_vars zero_instance) [[97, 0, 98, 13, 10]])
     = Inr []
   \<and> map_sum id snd (receive_run (javad_config_vars zero_instance)
        (map (\<lambda>b. [b]) [97, 0, 98, 13, 10]))
     = Inr [[97, 0, 98, 13, 10]]"
  by code_simp

end
